theory Spec2Isabelle
  imports Complex_Main "HOL-Library.AList"
begin

section \<open>Status page: severity resolver, probes, aggregation, timeline\<close>

text \<open>
  A shallow embedding of \<^verbatim>\<open>app.py\<close>. Python dictionaries whose insertion order
  or length is read are association lists; JSON integers are \<^typ>\<open>int\<close>; Python floats
  are idealised as \<^typ>\<open>real\<close>; every \<^verbatim>\<open>raise\<close> that can leave a function is a value
  \<open>Inl e\<close> of a sum type. What the libraries and the platform decide (the network, the
  configuration file, the conversion between Unix time and local dates, the side on
  which a double falls at a decimal tie) is a parameter of the functions that call them.
\<close>

subsection \<open>Python helpers\<close>

text \<open>\<^verbatim>\<open>d.get(k, default)\<close> on a dictionary literal.\<close>

definition dict_get :: "('k \<times> 'v) list \<Rightarrow> 'k \<Rightarrow> 'v \<Rightarrow> 'v" where
  "dict_get d k dflt = (case map_of d k of None \<Rightarrow> dflt | Some v \<Rightarrow> v)"

text \<open>\<^verbatim>\<open>x.get(k, default)\<close> on a JSON object: an absent key is \<open>None\<close>.\<close>

definition get_or :: "'a option \<Rightarrow> 'a \<Rightarrow> 'a" where
  "get_or v dflt = (case v of None \<Rightarrow> dflt | Some x \<Rightarrow> x)"

text \<open>Truth value of an optional JSON number: absent, \<^verbatim>\<open>null\<close> and \<open>0\<close> are false.\<close>

definition truthy :: "int option \<Rightarrow> bool" where
  "truthy v = (case v of None \<Rightarrow> False | Some n \<Rightarrow> n \<noteq> 0)"

text \<open>\<^verbatim>\<open>min(xs)\<close> of a non-empty list of integers (it raises on the empty list, where
  the source never calls it).\<close>

definition py_min :: "int list \<Rightarrow> int" where
  "py_min xs = foldl min (hd xs) (tl xs)"

text \<open>
  \<^verbatim>\<open>round(x, 2)\<close>: the nearest multiple of \<open>1/100\<close>. Python rounds the double that the
  computation of \<open>x\<close> left, and where the real value lies exactly between two hundredths
  that double lies on either side of the tie or on it (the average of 100.01 and 5000 is
  2550.005 and rounds to 2550.01, where a tie to even gives 2550.0). So at a tie of the
  real value the side is a parameter, \<open>tie_up\<close>: whether \<open>x\<close> goes to the upper hundredth.
\<close>

definition round2 :: "(real \<Rightarrow> bool) \<Rightarrow> real \<Rightarrow> real" where
  "round2 tie_up x =
     (let y = x * 100; f = \<lfloor>y\<rfloor>; d = y - of_int f
      in of_int (if d < 1 / 2 then f else if 1 / 2 < d then f + 1
                 else if tie_up x then f + 1 else f) / 100)"

subsection \<open>Severity resolver: \<^verbatim>\<open>get_status_color\<close>\<close>

definition priority_map :: "(int \<times> string) list" where
  "priority_map =
     [(4, ''major-outage''), (3, ''partial-outage''), (5, ''maintenance''),
      (2, ''degraded''), (6, ''investigating''), (1, ''operational'')]"

text \<open>The \<^verbatim>\<open>for status_id in status_ids\<close> loop, \<open>hp\<close> being \<^verbatim>\<open>highest_priority\<close>.\<close>

fun scan_priority :: "int \<Rightarrow> int list \<Rightarrow> int" where
  "scan_priority hp [] = hp"
| "scan_priority hp (status_id # rest) =
     scan_priority (if status_id \<in> set [4, 3, 5, 2, 6] \<and> status_id < hp then status_id else hp) rest"

definition get_status_color :: "int list \<Rightarrow> string" where
  "get_status_color status_ids =
     (if status_ids = [] then ''operational''
      else let highest_priority = (if status_ids \<noteq> [] then py_min status_ids else 1)
           in dict_get priority_map (scan_priority highest_priority status_ids) ''operational'')"

subsection \<open>Configuration: \<^verbatim>\<open>load_config\<close>\<close>

text \<open>
  One entry of \<^verbatim>\<open>CurrentStatuses\<close> or \<^verbatim>\<open>PastIncidents\<close>. A key the code reads with
  \<^verbatim>\<open>.get(k)\<close> is an option (\<open>None\<close> when absent or \<^verbatim>\<open>null\<close>); the two id lists are
  read with \<^verbatim>\<open>.get(k, [])\<close> only, so an absent list is the empty one.
\<close>

record incident =
  StatusTitle :: "string option"
  StatusDescription :: "string option"
  By :: "string option"
  StatusID :: "int list"
  CategoryID :: "int list"
  StartedAt :: "int option"
  FixedAt :: "int option"

text \<open>The JSON document; categories and status types are (id, name) pairs.\<close>

record config =
  ShowStatuses :: bool
  StatusCategories :: "(int \<times> string) list"
  StatusTypes :: "(int \<times> string) list"
  CurrentStatuses :: "incident list"
  PastIncidents :: "incident list"

text \<open>The exceptions that the calls of the source raise, each named by its class.\<close>

datatype py_exn =
  FileNotFoundError | PermissionError | JSONDecodeError
  | Timeout | ConnectionError
  | ValueError | OverflowError | OSError
  | OtherException

text \<open>What \<^verbatim>\<open>config.json\<close> is when it is opened and parsed.\<close>

datatype config_file = Missing | Unreadable | Malformed | Document config

text \<open>The body of the \<^verbatim>\<open>try\<close>: \<^verbatim>\<open>open\<close>, then \<^verbatim>\<open>json.load\<close>.\<close>

definition read_config :: "config_file \<Rightarrow> py_exn + config" where
  "read_config cf =
     (case cf of Missing \<Rightarrow> Inl FileNotFoundError
      | Unreadable \<Rightarrow> Inl PermissionError
      | Malformed \<Rightarrow> Inl JSONDecodeError
      | Document c \<Rightarrow> Inr c)"

definition load_config :: "config_file \<Rightarrow> py_exn + config" where
  "load_config cf =
     (case read_config cf of
        Inr c \<Rightarrow> Inr c
      | Inl e \<Rightarrow>
          if e = FileNotFoundError
          then Inr \<lparr>ShowStatuses = False, StatusCategories = [], StatusTypes = [],
                    CurrentStatuses = [], PastIncidents = []\<rparr>
          else Inl e)"

subsection \<open>Probe runner: \<^verbatim>\<open>check_service_health\<close>\<close>

text \<open>
  What \<^verbatim>\<open>requests.get(url, timeout=5)\<close> does: it returns a response with a status code,
  \<open>elapsed\<close> seconds after \<^verbatim>\<open>start_time\<close>, or it raises. A raised exception is named by
  the first \<^verbatim>\<open>except\<close> clause whose class it is an instance of.
\<close>

datatype request_outcome = Response int real | Raises py_exn

record probe_result =
  status :: string
  response_time :: "real option"

text \<open>The body of the \<^verbatim>\<open>try\<close>.\<close>

definition probe_body :: "(real \<Rightarrow> bool) \<Rightarrow> request_outcome \<Rightarrow> py_exn + probe_result" where
  "probe_body tie_up outcome =
     (case outcome of
        Raises e \<Rightarrow> Inl e
      | Response status_code elapsed \<Rightarrow>
          let rt = round2 tie_up (elapsed * 1000)
          in if status_code = 200 then Inr \<lparr>status = ''operational'', response_time = Some rt\<rparr>
             else if status_code \<in> set [500, 502, 503, 504]
               then Inr \<lparr>status = ''major'', response_time = Some rt\<rparr>
             else Inr \<lparr>status = ''degraded'', response_time = Some rt\<rparr>)"

text \<open>
  The handlers, in the order of the \<^verbatim>\<open>except\<close> clauses; every exception of
  \<^typ>\<open>py_exn\<close> is an \<^verbatim>\<open>Exception\<close>, which the last clause takes.
\<close>

definition check_service_health ::
  "(real \<Rightarrow> bool) \<Rightarrow> string \<Rightarrow> string \<Rightarrow> request_outcome \<Rightarrow> py_exn + probe_result" where
  "check_service_health tie_up service_name url outcome =
     (case probe_body tie_up outcome of
        Inr r \<Rightarrow> Inr r
      | Inl e \<Rightarrow>
          if e = Timeout then Inr \<lparr>status = ''degraded'', response_time = Some 5000\<rparr>
          else if e = ConnectionError then Inr \<lparr>status = ''major'', response_time = None\<rparr>
          else Inr \<lparr>status = ''investigating'', response_time = None\<rparr>)"

subsection \<open>Status aggregator: \<^verbatim>\<open>monitor_services\<close>\<close>

text \<open>
  The three globals. \<^verbatim>\<open>service_status\<close> is a dictionary: an association list in
  insertion order with distinct keys, written with \<^const>\<open>AList.update\<close>, so that its length
  is \<^verbatim>\<open>len(service_status)\<close>.
\<close>

record monitor_state =
  response_times :: "real list"
  service_status :: "(string \<times> probe_result) list"
  last_check_time :: real

definition initial_state :: monitor_state where
  "initial_state = \<lparr>response_times = [], service_status = [], last_check_time = 0\<rparr>"

text \<open>\<^verbatim>\<open>append\<close> on \<^verbatim>\<open>deque(maxlen=100)\<close>: add on the right, then drop the leftmost
  element when the length has passed the bound.\<close>

definition deque_append :: "real list \<Rightarrow> real \<Rightarrow> real list" where
  "deque_append dq x = (let ys = dq @ [x] in if 100 < length ys then tl ys else ys)"

definition get_health_endpoints :: "config_file \<Rightarrow> py_exn + (string \<times> string) list" where
  "get_health_endpoints cf =
     (case load_config cf of
        Inl e \<Rightarrow> Inl e
      | Inr config \<Rightarrow>
          Inr [(''API'', ''https://royalguard-api.up.railway.app/''),
               (''Discord Bot'', ''https://discord.com/api/v10/gateway''),
               (''Database'', ''https://royalguard-api.up.railway.app/''),
               (''ROBLOX API'', ''https://api.roblox.com/'')])"

text \<open>
  The loop over \<^verbatim>\<open>endpoints.items()\<close>. \<open>net\<close> gives what the request of this pass to each
  endpoint does. The result is the exception that left the loop, if any, with
  \<^verbatim>\<open>service_status\<close>, \<^verbatim>\<open>total_response_time\<close> and \<^verbatim>\<open>successful_checks\<close> as they are then.
\<close>

fun probe_endpoints ::
  "(real \<Rightarrow> bool) \<Rightarrow> (string \<Rightarrow> string \<Rightarrow> request_outcome) \<Rightarrow> (string \<times> string) list \<Rightarrow>
   (string \<times> probe_result) list \<Rightarrow> real \<Rightarrow> nat \<Rightarrow>
   py_exn option \<times> (string \<times> probe_result) list \<times> real \<times> nat" where
  "probe_endpoints tie_up net [] ss total_response_time successful_checks =
     (None, ss, total_response_time, successful_checks)"
| "probe_endpoints tie_up net ((service_name, url) # rest) ss total_response_time successful_checks =
     (case check_service_health tie_up service_name url (net service_name url) of
        Inl e \<Rightarrow> (Some e, ss, total_response_time, successful_checks)
      | Inr result \<Rightarrow>
          (case response_time result of
             None \<Rightarrow>
               probe_endpoints tie_up net rest (AList.update service_name result ss)
                 total_response_time successful_checks
           | Some rt \<Rightarrow>
               probe_endpoints tie_up net rest (AList.update service_name result ss)
                 (total_response_time + rt) (successful_checks + 1)))"

text \<open>
  One pass; \<open>now\<close> is \<^verbatim>\<open>time.time()\<close> at its last line. The result is the exception the
  pass raised, if any, and the globals as the pass leaves them.
\<close>

definition monitor_services ::
  "(real \<Rightarrow> bool) \<Rightarrow> config_file \<Rightarrow> (string \<Rightarrow> string \<Rightarrow> request_outcome) \<Rightarrow> real \<Rightarrow>
   monitor_state \<Rightarrow> py_exn option \<times> monitor_state" where
  "monitor_services tie_up cf net now s =
     (case get_health_endpoints cf of
        Inl e \<Rightarrow> (Some e, s)
      | Inr endpoints \<Rightarrow>
          (case probe_endpoints tie_up net endpoints (service_status s) 0 0 of
             (Some e, ss, total_response_time, successful_checks) \<Rightarrow>
               (Some e, s\<lparr>service_status := ss\<rparr>)
           | (None, ss, total_response_time, successful_checks) \<Rightarrow>
               let s1 = s\<lparr>service_status := ss\<rparr>;
                   s2 = (if 0 < successful_checks
                         then s1\<lparr>response_times :=
                                deque_append (response_times s1)
                                  (round2 tie_up (total_response_time / real successful_checks))\<rparr>
                         else s1)
               in (None, s2\<lparr>last_check_time := now\<rparr>)))"

text \<open>
  A sequence of passes, each with its own configuration file, network and clock: the
  iterations of \<^verbatim>\<open>monitor_loop\<close>, which catches what a pass raises and goes on, and the
  passes that \<^verbatim>\<open>index\<close> starts; both call \<^verbatim>\<open>monitor_services\<close> on the same globals.
\<close>

fun monitor_loop ::
  "(real \<Rightarrow> bool) \<Rightarrow> (config_file \<times> (string \<Rightarrow> string \<Rightarrow> request_outcome) \<times> real) list \<Rightarrow>
   monitor_state \<Rightarrow> monitor_state" where
  "monitor_loop tie_up [] s = s"
| "monitor_loop tie_up ((cf, net, now) # passes) s =
     monitor_loop tie_up passes (snd (monitor_services tie_up cf net now s))"

definition calculate_uptime :: "(real \<Rightarrow> bool) \<Rightarrow> monitor_state \<Rightarrow> real" where
  "calculate_uptime tie_up s =
     (if service_status s = [] then 99.98
      else let operational_services =
                 length (filter (\<lambda>(name, st). status st = ''operational'') (service_status s));
               total_services = length (service_status s)
           in if total_services = 0 then 99.98
              else round2 tie_up (real operational_services / real total_services * 100))"

subsection \<open>Incident timeline: \<^verbatim>\<open>generate_90_day_history\<close>\<close>

text \<open>
  A calendar date is the number of its day, counted from 1970-01-01;
  \<^verbatim>\<open>strftime('%Y-%m-%d')\<close> renders distinct days as distinct strings, and the dictionary
  keys and the \<^verbatim>\<open>date\<close> fields are compared for equality only.

  The clock is what the platform answers: \<open>now_ts\<close> is the Unix time at
  \<^verbatim>\<open>datetime.now()\<close>; \<open>fromtimestamp t\<close> is the local date of
  \<^verbatim>\<open>datetime.fromtimestamp(t)\<close>, in the time zone rules in force at \<open>t\<close>, or the exception
  that the call raises when \<open>t\<close> is out of its range (\<^verbatim>\<open>datetime.now()\<close> is this call at
  the current time); \<open>timestamp_back i\<close> is
  \<^verbatim>\<open>int((today - timedelta(days=i)).timestamp())\<close>, or the exception that \<^verbatim>\<open>timestamp\<close>
  raises.
\<close>

record clock =
  now_ts :: int
  fromtimestamp :: "int \<Rightarrow> py_exn + int"
  timestamp_back :: "nat \<Rightarrow> py_exn + int"

text \<open>The day of 0001-01-01, the least date: \<^verbatim>\<open>today - timedelta(days=i)\<close> raises
  \<^verbatim>\<open>OverflowError\<close> below it.\<close>

definition min_day :: int where
  "min_day = - 719162"

record summary =
  inc_title :: string
  inc_type :: string
  inc_description :: string
  inc_by :: string
  inc_started_at :: "int option"
  inc_fixed_at :: "int option"

record day_data =
  map_status :: string
  map_incidents :: "summary list"

record day_record =
  date :: int
  day_status :: string
  incidents :: "summary list"
  timestamp :: int

text \<open>The chain \<^verbatim>\<open>if 4 in status_ids ... elif 3 ... elif 2 ... elif 5 ... else\<close>, which both
  loops repeat; it gives \<^verbatim>\<open>status\<close> and \<^verbatim>\<open>incident_type\<close> alike.\<close>

definition incident_type_of :: "int list \<Rightarrow> string" where
  "incident_type_of status_ids =
     (if 4 \<in> set status_ids then ''major''
      else if 3 \<in> set status_ids then ''partial''
      else if 2 \<in> set status_ids then ''degraded''
      else if 5 \<in> set status_ids then ''maintenance''
      else ''investigating'')"

text \<open>The two statements that end each loop body: create the day's entry if the date is
  new, then append the summary to its list.\<close>

definition add_incident ::
  "int \<Rightarrow> string \<Rightarrow> summary \<Rightarrow> (int \<rightharpoonup> day_data) \<Rightarrow> (int \<rightharpoonup> day_data)" where
  "add_incident date_str st sm incident_map =
     (let m1 = (if incident_map date_str = None
                then incident_map(date_str \<mapsto> \<lparr>map_status = st, map_incidents = []\<rparr>)
                else incident_map)
      in case m1 date_str of
           None \<Rightarrow> m1
         | Some dd \<Rightarrow> m1(date_str \<mapsto> dd\<lparr>map_incidents := map_incidents dd @ [sm]\<rparr>))"

definition past_summary :: "incident \<Rightarrow> summary" where
  "past_summary incident =
     \<lparr>inc_title = get_or (StatusTitle incident) ''Unknown Incident'',
      inc_type = incident_type_of (StatusID incident),
      inc_description = get_or (StatusDescription incident) [],
      inc_by = get_or (By incident) [],
      inc_started_at = StartedAt incident,
      inc_fixed_at = FixedAt incident\<rparr>"

definition current_summary :: "incident \<Rightarrow> summary" where
  "current_summary st =
     \<lparr>inc_title = get_or (StatusTitle st) ''Ongoing Issue'',
      inc_type = incident_type_of (StatusID st),
      inc_description = get_or (StatusDescription st) [],
      inc_by = get_or (By st) [],
      inc_started_at = StartedAt st,
      inc_fixed_at = None\<rparr>"

text \<open>The loop over \<^verbatim>\<open>PastIncidents\<close>; the exception that
  \<^verbatim>\<open>datetime.fromtimestamp(incident['StartedAt'])\<close> raises leaves the loop.\<close>

fun index_past ::
  "clock \<Rightarrow> incident list \<Rightarrow> (int \<rightharpoonup> day_data) \<Rightarrow> py_exn + (int \<rightharpoonup> day_data)" where
  "index_past clk [] incident_map = Inr incident_map"
| "index_past clk (incident # rest) incident_map =
     (if truthy (StartedAt incident)
      then (case fromtimestamp clk (get_or (StartedAt incident) 0) of
              Inl e \<Rightarrow> Inl e
            | Inr date_str \<Rightarrow>
                index_past clk rest
                  (add_incident date_str (incident_type_of (StatusID incident))
                     (past_summary incident) incident_map))
      else index_past clk rest incident_map)"

text \<open>The loop over \<^verbatim>\<open>CurrentStatuses\<close>, likewise.\<close>

fun index_current ::
  "clock \<Rightarrow> incident list \<Rightarrow> (int \<rightharpoonup> day_data) \<Rightarrow> py_exn + (int \<rightharpoonup> day_data)" where
  "index_current clk [] incident_map = Inr incident_map"
| "index_current clk (st # rest) incident_map =
     (if \<not> truthy (FixedAt st) \<and> truthy (StartedAt st)
      then (case fromtimestamp clk (get_or (StartedAt st) 0) of
              Inl e \<Rightarrow> Inl e
            | Inr date_str \<Rightarrow>
                index_current clk rest
                  (add_incident date_str (incident_type_of (StatusID st))
                     (current_summary st) incident_map))
      else index_current clk rest incident_map)"

text \<open>
  The body of \<^verbatim>\<open>for i in range(90)\<close>: the record of the day \<open>i\<close> days before today, or the
  exception of the subtraction or of \<^verbatim>\<open>timestamp\<close>.
\<close>

definition history_entry ::
  "clock \<Rightarrow> (int \<rightharpoonup> day_data) \<Rightarrow> int \<Rightarrow> nat \<Rightarrow> py_exn + day_record" where
  "history_entry clk incident_map today i =
     (if today - int i < min_day then Inl OverflowError
      else let date_str = today - int i
           in case timestamp_back clk i of
                Inl e \<Rightarrow> Inl e
              | Inr ts \<Rightarrow>
                  (case incident_map date_str of
                     Some day_data \<Rightarrow>
                       Inr \<lparr>date = date_str, day_status = map_status day_data,
                            incidents = map_incidents day_data, timestamp = ts\<rparr>
                   | None \<Rightarrow>
                       Inr \<lparr>date = date_str, day_status = ''operational'', incidents = [],
                            timestamp = ts\<rparr>))"

text \<open>The loop itself, over the values of \<open>i\<close> that are left, \<^verbatim>\<open>history\<close> growing on the
  right.\<close>

fun history_loop ::
  "clock \<Rightarrow> (int \<rightharpoonup> day_data) \<Rightarrow> int \<Rightarrow> nat list \<Rightarrow> day_record list \<Rightarrow>
   py_exn + day_record list" where
  "history_loop clk incident_map today [] history = Inr history"
| "history_loop clk incident_map today (i # rest) history =
     (case history_entry clk incident_map today i of
        Inl e \<Rightarrow> Inl e
      | Inr r \<Rightarrow> history_loop clk incident_map today rest (history @ [r]))"

definition generate_90_day_history :: "config_file \<Rightarrow> clock \<Rightarrow> py_exn + day_record list" where
  "generate_90_day_history cf clk =
     (case load_config cf of
        Inl e \<Rightarrow> Inl e
      | Inr config \<Rightarrow>
          (case fromtimestamp clk (now_ts clk) of
             Inl e \<Rightarrow> Inl e
           | Inr today \<Rightarrow>
               (case index_past clk (PastIncidents config) Map.empty of
                  Inl e \<Rightarrow> Inl e
                | Inr m1 \<Rightarrow>
                    (case index_current clk (CurrentStatuses config) m1 of
                       Inl e \<Rightarrow> Inl e
                     | Inr incident_map \<Rightarrow>
                         (case history_loop clk incident_map today [0..<90] [] of
                            Inl e \<Rightarrow> Inl e
                          | Inr history \<Rightarrow> Inr (rev history))))))"

subsection \<open>Terms of the statements\<close>

text \<open>
  The response times that the probes of one pass return, in the order of the endpoints,
  leaving out the probes that return none: the values the claim about the average names.
\<close>

definition spec_pass_timings ::
  "(real \<Rightarrow> bool) \<Rightarrow> (string \<Rightarrow> string \<Rightarrow> request_outcome) \<Rightarrow> (string \<times> string) list \<Rightarrow>
   real list" where
  "spec_pass_timings tie_up net endpoints =
     List.map_filter
       (\<lambda>(service_name, url).
          case check_service_health tie_up service_name url (net service_name url) of
            Inl e \<Rightarrow> None
          | Inr result \<Rightarrow> response_time result)
       endpoints"

text \<open>\<^verbatim>\<open>datetime.fromtimestamp\<close> accepts the \<^verbatim>\<open>StartedAt\<close> of an entry.\<close>

definition spec_dated :: "clock \<Rightarrow> incident \<Rightarrow> bool" where
  "spec_dated clk x =
     (case fromtimestamp clk (get_or (StartedAt x) 0) of Inl e \<Rightarrow> False | Inr d \<Rightarrow> True)"

text \<open>The entries that the two loops come to: the past incidents with a start, and the
  current statuses with a start and no fix.\<close>

definition spec_past_entries :: "config \<Rightarrow> incident list" where
  "spec_past_entries cfg = filter (\<lambda>x. truthy (StartedAt x)) (PastIncidents cfg)"

definition spec_current_entries :: "config \<Rightarrow> incident list" where
  "spec_current_entries cfg =
     filter (\<lambda>x. \<not> truthy (FixedAt x) \<and> truthy (StartedAt x)) (CurrentStatuses cfg)"

text \<open>The log can be dated: \<^verbatim>\<open>datetime.fromtimestamp\<close> accepts the start of every entry
  that the loops come to.\<close>

definition spec_log_dated :: "clock \<Rightarrow> config \<Rightarrow> bool" where
  "spec_log_dated clk cfg =
     (list_all (spec_dated clk) (spec_past_entries cfg)
      \<and> list_all (spec_dated clk) (spec_current_entries cfg))"

text \<open>
  The clock gives the 90 days: \<^verbatim>\<open>datetime.now()\<close> returns, on the day \<open>today\<close>; the day 89
  days before is a date; and \<^verbatim>\<open>timestamp\<close> returns for each of the 90 days.
\<close>

definition spec_clock_ok :: "clock \<Rightarrow> int \<Rightarrow> bool" where
  "spec_clock_ok clk today =
     (fromtimestamp clk (now_ts clk) = Inr today \<and> min_day \<le> today - 89
      \<and> list_all (\<lambda>i. case timestamp_back clk i of Inl e \<Rightarrow> False | Inr ts \<Rightarrow> True) [0..<90])"

text \<open>
  The entries of a log that can be dated, in the order in which the loops index them,
  each with its date, its status ids and its summary.
\<close>

definition spec_entry ::
  "clock \<Rightarrow> (incident \<Rightarrow> summary) \<Rightarrow> incident \<Rightarrow> (int \<times> int list \<times> summary) option" where
  "spec_entry clk sm x =
     (case fromtimestamp clk (get_or (StartedAt x) 0) of
        Inl e \<Rightarrow> None
      | Inr d \<Rightarrow> Some (d, StatusID x, sm x))"

definition spec_indexed_entries :: "clock \<Rightarrow> config \<Rightarrow> (int \<times> int list \<times> summary) list" where
  "spec_indexed_entries clk cfg =
     List.map_filter (spec_entry clk past_summary) (spec_past_entries cfg)
     @ List.map_filter (spec_entry clk current_summary) (spec_current_entries cfg)"

text \<open>One step of either loop, on an entry of that list.\<close>

definition add_entry ::
  "int \<times> int list \<times> summary \<Rightarrow> (int \<rightharpoonup> day_data) \<Rightarrow> (int \<rightharpoonup> day_data)" where
  "add_entry e m = add_incident (fst e) (incident_type_of (fst (snd e))) (snd (snd e)) m"

text \<open>
  What the record \<open>r\<close> of the day \<open>i\<close> days before \<open>today\<close> holds, given the index: the
  date, and the status and the incidents of the index at that date, or Operational and
  none.
\<close>

definition spec_day_of :: "(int \<rightharpoonup> day_data) \<Rightarrow> int \<Rightarrow> nat \<Rightarrow> day_record \<Rightarrow> bool" where
  "spec_day_of m today i r =
     (date r = today - int i
      \<and> day_status r = (case m (today - int i) of None \<Rightarrow> ''operational''
                         | Some dd \<Rightarrow> map_status dd)
      \<and> incidents r = (case m (today - int i) of None \<Rightarrow> [] | Some dd \<Rightarrow> map_incidents dd))"

subsection \<open>Example inputs\<close>

text \<open>A pass in which one endpoint answers 200 after 100 ms, one times out and two cannot
  be reached.\<close>

definition example_net :: "string \<Rightarrow> string \<Rightarrow> request_outcome" where
  "example_net service_name url =
     (if service_name = ''API'' then Response 200 (1 / 10)
      else if service_name = ''Discord Bot'' then Raises Timeout
      else Raises ConnectionError)"

text \<open>A pass in which three endpoints answer, after 100 ms, 100 ms and 101 ms, and one
  cannot be reached: the average, 100.333..., is not a hundredth.\<close>

definition example_net_thirds :: "string \<Rightarrow> string \<Rightarrow> request_outcome" where
  "example_net_thirds service_name url =
     (if service_name = ''API'' then Response 200 (1 / 10)
      else if service_name = ''Discord Bot'' then Response 503 (1 / 10)
      else if service_name = ''Database'' then Response 200 (101 / 1000)
      else Raises ConnectionError)"

text \<open>
  \<^verbatim>\<open>datetime.fromtimestamp\<close> as CPython 3.11 on 64-bit Linux answers with UTC as the local
  time: \<^verbatim>\<open>OverflowError\<close> outside \<^verbatim>\<open>time_t\<close>, \<^verbatim>\<open>OSError\<close> where \<^verbatim>\<open>localtime\<close> fails,
  \<^verbatim>\<open>ValueError\<close> outside the years 1 to 9999 (and on the first day of the year 1), the
  day otherwise.
\<close>

definition utc_fromtimestamp :: "int \<Rightarrow> py_exn + int" where
  "utc_fromtimestamp t =
     (if t < - (2 ^ 63) \<or> 2 ^ 63 \<le> t then Inl OverflowError
      else if t < - 67768040609740800 \<or> 67768036191676800 \<le> t then Inl OSError
      else if t < - 62135510400 \<or> 253402300799 < t then Inl ValueError
      else Inr (t div 86400))"

text \<open>14 November 2023, 22:13:20 UTC, and two resolved incidents that started earlier on
  that day: a major outage and a degraded performance; and an incident whose start is
  given in milliseconds.\<close>

definition example_clock :: clock where
  "example_clock =
     \<lparr>now_ts = 1700000000, fromtimestamp = utc_fromtimestamp,
      timestamp_back = (\<lambda>i. Inr (1700000000 - 86400 * int i))\<rparr>"

definition example_major :: incident where
  "example_major =
     \<lparr>StatusTitle = Some ''API outage'', StatusDescription = None, By = None,
      StatusID = [4], CategoryID = [], StartedAt = Some 1699990000, FixedAt = Some 1699995000\<rparr>"

definition example_degraded :: incident where
  "example_degraded =
     \<lparr>StatusTitle = Some ''Slow responses'', StatusDescription = None, By = None,
      StatusID = [2], CategoryID = [], StartedAt = Some 1699980000, FixedAt = Some 1699985000\<rparr>"

definition example_milliseconds :: incident where
  "example_milliseconds =
     \<lparr>StatusTitle = Some ''API outage'', StatusDescription = None, By = None,
      StatusID = [4], CategoryID = [], StartedAt = Some 1699990000000,
      FixedAt = Some 1699995000000\<rparr>"

definition example_config :: "incident list \<Rightarrow> config" where
  "example_config past =
     \<lparr>ShowStatuses = True, StatusCategories = [], StatusTypes = [],
      CurrentStatuses = [], PastIncidents = past\<rparr>"

section \<open>Properties\<close>

subsection \<open>Severity resolver\<close>

lemma foldl_min_le_start: "foldl min a xs \<le> (a::int)"
proof (induction xs arbitrary: a)
  case Nil
  show ?case by simp
next
  case (Cons x xs)
  have "foldl min (min a x) xs \<le> min a x" by (rule Cons.IH)
  also have "\<dots> \<le> a" by simp
  finally show ?case by simp
qed

lemma foldl_min_le: "x \<in> set xs \<Longrightarrow> foldl min a xs \<le> (x::int)"
proof (induction xs arbitrary: a)
  case Nil
  then show ?case by simp
next
  case (Cons y ys)
  show ?case
  proof (cases "x = y")
    case True
    have "foldl min (min a y) ys \<le> min a y" by (rule foldl_min_le_start)
    also have "\<dots> \<le> y" by simp
    finally show ?thesis using True by simp
  next
    case False
    with Cons.prems have "x \<in> set ys" by simp
    then show ?thesis using Cons.IH by simp
  qed
qed

lemma py_min_le: "x \<in> set xs \<Longrightarrow> py_min xs \<le> x"
  unfolding py_min_def
  by (cases xs) (auto simp: foldl_min_le intro: foldl_min_le_start)

text \<open>The loop never changes \<^verbatim>\<open>highest_priority\<close> when it starts at the minimum: its
  test asks for an id below it.\<close>

lemma scan_priority_id: "\<forall>x\<in>set xs. hp \<le> x \<Longrightarrow> scan_priority hp xs = hp"
  by (induction xs) auto

lemma get_status_color_is_min:
  "get_status_color status_ids =
     (if status_ids = [] then ''operational''
      else dict_get priority_map (py_min status_ids) ''operational'')"
  by (simp add: get_status_color_def scan_priority_id py_min_le)

text \<open>
  C1. The resolver is to rank Major(4) over Partial(3) over Maintenance(5) over
  Degraded(2) over Investigating(6) over Operational(1), as the comment in its body says.
  It returns the class of the numerically least id instead: the ids 4, 1, 2 and the ids
  4, 1 resolve to Operational, not Major, and the ids 4, 3 to Partial.
\<close>

theorem get_status_color_major_with_operational:
  "get_status_color [4, 1, 2] = ''operational'' \<and> get_status_color [4, 1] = ''operational''
   \<and> get_status_color [4, 3] = ''partial-outage''"
  by (simp add: get_status_color_def py_min_def dict_get_def priority_map_def)

subsection \<open>Probe runner\<close>

text \<open>
  C3, as amended. A probe that receives a response is Operational for the status code
  200 and for no other code, Major for 500, 502, 503 and 504, and Degraded for every other
  code, the other 2xx codes among them; its response time is the measured one, never none.
\<close>

theorem check_service_health_response:
  "check_service_health tie_up service_name url (Response status_code elapsed) =
     Inr \<lparr>status = (if status_code = 200 then ''operational''
                     else if status_code \<in> {500, 502, 503, 504} then ''major''
                     else ''degraded''),
          response_time = Some (round2 tie_up (elapsed * 1000))\<rparr>"
  by (simp add: check_service_health_def probe_body_def Let_def)

text \<open>A response 503 after a quarter of a second: Major, 250 ms.\<close>

theorem check_service_health_503:
  "check_service_health (\<lambda>x. True) ''API'' ''https://royalguard-api.up.railway.app/''
     (Response 503 (1 / 4)) =
     Inr \<lparr>status = ''major'', response_time = Some 250\<rparr>"
  using check_service_health_response
    [of "\<lambda>x. True" "''API''" "''https://royalguard-api.up.railway.app/''" 503 "1 / 4"]
  by (simp add: round2_def)

text \<open>C3 as stated fails at the 2xx code 204, which is Degraded.\<close>

theorem check_service_health_204:
  "check_service_health (\<lambda>x. True) ''API'' ''https://royalguard-api.up.railway.app/''
     (Response 204 (1 / 4)) =
     Inr \<lparr>status = ''degraded'', response_time = Some 250\<rparr>"
  by (simp add: check_service_health_def probe_body_def round2_def)

text \<open>
  C4. A request that fails gives a classified result: Degraded with 5000 ms for a
  timeout, Major with no response time for a connection failure, Investigating with no
  response time for any other failure; and whatever the request does, the probe returns
  a result and raises nothing.
\<close>

theorem check_service_health_never_raises:
  "check_service_health tie_up service_name url (Raises e) =
     Inr (if e = Timeout then \<lparr>status = ''degraded'', response_time = Some 5000\<rparr>
          else if e = ConnectionError then \<lparr>status = ''major'', response_time = None\<rparr>
          else \<lparr>status = ''investigating'', response_time = None\<rparr>)
   \<and> (\<exists>r. check_service_health tie_up service_name url outcome = Inr r)"
  by (cases outcome) (simp_all add: check_service_health_def probe_body_def Let_def)

subsection \<open>Configuration\<close>

text \<open>
  C7, as amended. A missing configuration file gives the empty configuration that shows
  nothing; a file that cannot be read or whose contents are malformed raises to the
  caller; a well-formed document is returned as it is.
\<close>

theorem load_config_cases:
  "load_config cf =
     (case cf of
        Missing \<Rightarrow> Inr \<lparr>ShowStatuses = False, StatusCategories = [], StatusTypes = [],
                         CurrentStatuses = [], PastIncidents = []\<rparr>
      | Unreadable \<Rightarrow> Inl PermissionError
      | Malformed \<Rightarrow> Inl JSONDecodeError
      | Document c \<Rightarrow> Inr c)"
  by (cases cf) (simp_all add: load_config_def read_config_def)

text \<open>C7 as stated fails for malformed contents: the decoding error leaves \<^verbatim>\<open>load_config\<close>.\<close>

theorem load_config_malformed_raises: "load_config Malformed = Inl JSONDecodeError"
  by (simp add: load_config_def read_config_def)

subsection \<open>Status aggregator\<close>

lemma check_service_health_Inr: "\<exists>r. check_service_health tie_up n u outcome = Inr r"
  by (cases outcome) (simp_all add: check_service_health_def probe_body_def Let_def)

lemma spec_pass_timings_Nil: "spec_pass_timings tie_up net [] = []"
  by (simp add: spec_pass_timings_def)

lemma spec_pass_timings_Cons:
  "check_service_health tie_up n u (net n u) = Inr r \<Longrightarrow>
   spec_pass_timings tie_up net ((n, u) # rest) =
     (case response_time r of None \<Rightarrow> spec_pass_timings tie_up net rest
      | Some rt \<Rightarrow> rt # spec_pass_timings tie_up net rest)"
  by (simp add: spec_pass_timings_def split: option.splits)

lemma probe_endpoints_totals:
  "\<exists>ss'. probe_endpoints tie_up net endpoints ss t c =
     (None, ss', t + sum_list (spec_pass_timings tie_up net endpoints),
      c + length (spec_pass_timings tie_up net endpoints))"
proof (induction endpoints arbitrary: ss t c)
  case Nil
  show ?case by (simp add: spec_pass_timings_Nil)
next
  case (Cons p rest)
  obtain n u where p: "p = (n, u)" by (cases p)
  obtain r where r: "check_service_health tie_up n u (net n u) = Inr r"
    using check_service_health_Inr by blast
  show ?case
  proof (cases "response_time r")
    case None
    from Cons.IH [of "AList.update n r ss" t c] show ?thesis
      by (simp add: p r None spec_pass_timings_Cons [where net = net, OF r])
  next
    case (Some rt)
    from Cons.IH [of "AList.update n r ss" "t + rt" "c + 1"] show ?thesis
      by (simp add: p r Some spec_pass_timings_Cons [where net = net, OF r] add.assoc)
  qed
qed

lemma probe_endpoints_keys:
  "probe_endpoints tie_up net endpoints ss t c = (x, ss', t', c') \<Longrightarrow>
   distinct (map fst ss) \<Longrightarrow>
   distinct (map fst ss') \<and> set (map fst ss') \<subseteq> set (map fst ss) \<union> set (map fst endpoints)"
proof (induction endpoints arbitrary: ss t c)
  case Nil
  then show ?case by auto
next
  case (Cons p rest)
  obtain n u where p: "p = (n, u)" by (cases p)
  obtain r where r: "check_service_health tie_up n u (net n u) = Inr r"
    using check_service_health_Inr by blast
  have d: "distinct (map fst (AList.update n r ss))"
    using Cons.prems(2) by (rule distinct_update)
  have k: "set (map fst (AList.update n r ss)) = insert n (set (map fst ss))"
    using dom_update [of n r ss] by simp
  show ?case
  proof (cases "response_time r")
    case None
    with Cons.prems(1)
    have "probe_endpoints tie_up net rest (AList.update n r ss) t c = (x, ss', t', c')"
      by (simp add: p r)
    from Cons.IH [OF this d] show ?thesis unfolding k by (auto simp: p)
  next
    case (Some rt)
    with Cons.prems(1)
    have "probe_endpoints tie_up net rest (AList.update n r ss) (t + rt) (c + 1) = (x, ss', t', c')"
      by (simp add: p r)
    from Cons.IH [OF this d] show ?thesis unfolding k by (auto simp: p)
  qed
qed

lemma monitor_services_result:
  assumes "get_health_endpoints cf = Inr endpoints"
  shows "\<exists>ss'. monitor_services tie_up cf net now s =
           (None, \<lparr>response_times =
                     (if spec_pass_timings tie_up net endpoints = [] then response_times s
                      else deque_append (response_times s)
                             (round2 tie_up (sum_list (spec_pass_timings tie_up net endpoints)
                                / real (length (spec_pass_timings tie_up net endpoints))))),
                   service_status = ss', last_check_time = now\<rparr>)"
proof -
  obtain ss' where pe: "probe_endpoints tie_up net endpoints (service_status s) 0 0 =
      (None, ss', sum_list (spec_pass_timings tie_up net endpoints),
       length (spec_pass_timings tie_up net endpoints))"
    using probe_endpoints_totals [of tie_up net endpoints "service_status s" 0 0] by auto
  show ?thesis
    by (rule exI [of _ ss']) (simp add: monitor_services_def assms pe Let_def)
qed

lemma monitor_services_raises:
  "load_config cf = Inl e \<Longrightarrow>
   get_health_endpoints cf = Inl e \<and> monitor_services tie_up cf net now s = (Some e, s)"
  by (simp add: monitor_services_def get_health_endpoints_def)

lemma get_health_endpoints_Inr:
  "load_config cf = Inr cfg \<Longrightarrow> \<exists>endpoints. get_health_endpoints cf = Inr endpoints"
  by (simp add: get_health_endpoints_def)

text \<open>What \<^const>\<open>round2\<close> returns is a hundredth, and no further than half a hundredth
  from its argument.\<close>

lemma round2_hundredth: "\<exists>k::int. round2 tie_up x = of_int k / 100"
  unfolding round2_def Let_def by (rule exI) (rule refl)

lemma round2_near: "\<bar>round2 tie_up x - x\<bar> \<le> 1 / 200"
proof -
  define y where "y = x * 100"
  define f where "f = \<lfloor>y\<rfloor>"
  define r where "r = (if y - of_int f < 1 / 2 then f else if 1 / 2 < y - of_int f then f + 1
                 else if tie_up x then f + 1 else f)"
  have fy: "of_int f \<le> y" and yf: "y < of_int f + 1" unfolding f_def by linarith+
  have b: "\<bar>of_int r - y\<bar> \<le> 1 / 2"
    unfolding r_def using fy yf by auto
  have e: "round2 tie_up x = of_int r / 100"
    unfolding round2_def Let_def r_def f_def y_def ..
  have "round2 tie_up x - x = (of_int r - y) / 100"
    unfolding e by (simp add: y_def diff_divide_distrib)
  then have "\<bar>round2 tie_up x - x\<bar> = \<bar>(of_int r - y) / 100\<bar>" by (simp only:)
  also have "\<dots> = \<bar>of_int r - y\<bar> / 100" by simp
  also have "\<dots> \<le> (1 / 2) / 100" using b by (rule divide_right_mono) simp
  finally show ?thesis by simp
qed

text \<open>At the tie 2550.005, the average of 100.01 and 5000, the parameter decides; Python,
  whose double lies above the tie, gives 2550.01.\<close>

lemma round2_at_tie:
  "round2 (\<lambda>x. True) (510001 / 200) = 255001 / 100"
  "round2 (\<lambda>x. False) (510001 / 200) = 2550"
  by (simp_all add: round2_def)

text \<open>
  C8, as amended. A pass whose configuration load raises (\<^verbatim>\<open>config.json\<close> cannot be read
  or is malformed) raises that exception in \<^verbatim>\<open>get_health_endpoints\<close> and leaves the
  globals as they were, the time of the last pass among them. In every other pass nothing
  is raised; the time of the last pass is set; the window is unchanged if no probe
  returned a response time; and otherwise one value is appended to it, a hundredth that
  lies no further than half a hundredth from the average of the response times that are
  not none: that average, rounded to two decimals.
\<close>

theorem monitor_services_pass:
  "(\<forall>e. load_config cf = Inl e \<longrightarrow>
      get_health_endpoints cf = Inl e \<and> monitor_services tie_up cf net now s = (Some e, s))
   \<and> (\<forall>cfg. load_config cf = Inr cfg \<longrightarrow>
        (\<exists>endpoints s'.
           get_health_endpoints cf = Inr endpoints
           \<and> monitor_services tie_up cf net now s = (None, s')
           \<and> last_check_time s' = now
           \<and> (spec_pass_timings tie_up net endpoints = [] \<longrightarrow>
                response_times s' = response_times s)
           \<and> (spec_pass_timings tie_up net endpoints \<noteq> [] \<longrightarrow>
                (\<exists>v k. response_times s' = deque_append (response_times s) v
                   \<and> v = of_int k / 100
                   \<and> \<bar>v - sum_list (spec_pass_timings tie_up net endpoints)
                            / real (length (spec_pass_timings tie_up net endpoints))\<bar>
                      \<le> 1 / 200))))"
proof (intro conjI allI impI)
  fix e assume "load_config cf = Inl e"
  from monitor_services_raises [OF this]
  show "get_health_endpoints cf = Inl e" and "monitor_services tie_up cf net now s = (Some e, s)"
    by simp_all
next
  fix cfg assume "load_config cf = Inr cfg"
  then obtain endpoints where g: "get_health_endpoints cf = Inr endpoints"
    using get_health_endpoints_Inr by blast
  let ?T = "spec_pass_timings tie_up net endpoints"
  let ?v = "round2 tie_up (sum_list ?T / real (length ?T))"
  from monitor_services_result [OF g, of tie_up net now s]
  obtain ss' where m: "monitor_services tie_up cf net now s =
      (None, \<lparr>response_times = (if ?T = [] then response_times s
                                  else deque_append (response_times s) ?v),
              service_status = ss', last_check_time = now\<rparr>)"
    by (elim exE)
  obtain k :: int where k: "?v = of_int k / 100"
    using round2_hundredth by blast
  have n: "\<bar>?v - sum_list ?T / real (length ?T)\<bar> \<le> 1 / 200"
    by (rule round2_near)
  let ?s' = "\<lparr>response_times = (if ?T = [] then response_times s
                                  else deque_append (response_times s) ?v),
              service_status = ss', last_check_time = now\<rparr>"
  have a: "?T = [] \<longrightarrow> response_times ?s' = response_times s" by simp
  have b: "?T \<noteq> [] \<longrightarrow>
                (\<exists>v k. response_times ?s' = deque_append (response_times s) v
                   \<and> v = of_int k / 100
                   \<and> \<bar>v - sum_list ?T / real (length ?T)\<bar> \<le> 1 / 200)"
  proof
    assume "?T \<noteq> []"
    then have "response_times ?s' = deque_append (response_times s) ?v" by simp
    with k n show "\<exists>v k. response_times ?s' = deque_append (response_times s) v
                   \<and> v = of_int k / 100
                   \<and> \<bar>v - sum_list ?T / real (length ?T)\<bar> \<le> 1 / 200"
      by (intro exI [of _ ?v] exI [of _ k] conjI)
  qed
  have l: "last_check_time ?s' = now" by simp
  show "\<exists>endpoints s'.
           get_health_endpoints cf = Inr endpoints
           \<and> monitor_services tie_up cf net now s = (None, s')
           \<and> last_check_time s' = now
           \<and> (spec_pass_timings tie_up net endpoints = [] \<longrightarrow>
                response_times s' = response_times s)
           \<and> (spec_pass_timings tie_up net endpoints \<noteq> [] \<longrightarrow>
                (\<exists>v k. response_times s' = deque_append (response_times s) v
                   \<and> v = of_int k / 100
                   \<and> \<bar>v - sum_list (spec_pass_timings tie_up net endpoints)
                            / real (length (spec_pass_timings tie_up net endpoints))\<bar>
                      \<le> 1 / 200))"
    using g m l a b by (intro exI [of _ endpoints] exI [of _ ?s'] conjI)
qed

text \<open>
  A pass whose three timings, 100, 100 and 101, have the average 100.333...: the
  hundredth 100.33 is appended. A pass in which no endpoint can be reached: nothing is
  appended, and the time of the last pass is set.
\<close>

theorem monitor_services_pass_witness:
  "(\<exists>s'. monitor_services (\<lambda>x. True) Missing example_net_thirds 1000 initial_state = (None, s')
      \<and> last_check_time s' = 1000 \<and> response_times s' = [10033 / 100])
   \<and> (\<exists>s'. monitor_services (\<lambda>x. True) Missing (\<lambda>n u. Raises ConnectionError) 1000 initial_state
             = (None, s')
      \<and> last_check_time s' = 1000 \<and> response_times s' = [])"
proof -
  let ?E =
    "[(''API'', ''https://royalguard-api.up.railway.app/''),
      (''Discord Bot'', ''https://discord.com/api/v10/gateway''),
      (''Database'', ''https://royalguard-api.up.railway.app/''),
      (''ROBLOX API'', ''https://api.roblox.com/'')]"
  let ?c = "\<lparr>ShowStatuses = False, StatusCategories = [], StatusTypes = [],
             CurrentStatuses = [], PastIncidents = []\<rparr>"
  have c: "load_config Missing = Inr ?c"
    by (simp add: load_config_def read_config_def)
  have e: "get_health_endpoints Missing = Inr ?E"
    by (simp add: get_health_endpoints_def c)
  have t: "spec_pass_timings (\<lambda>x. True) example_net_thirds ?E = [100, 100, 101]"
    by (simp add: spec_pass_timings_def check_service_health_def probe_body_def
        example_net_thirds_def round2_def Let_def)
  have n: "spec_pass_timings (\<lambda>x. True) (\<lambda>n u. Raises ConnectionError) ?E = []"
    by (simp add: spec_pass_timings_def check_service_health_def probe_body_def)
  have a: "\<exists>s'. monitor_services (\<lambda>x. True) Missing example_net_thirds 1000 initial_state = (None, s')
      \<and> last_check_time s' = 1000 \<and> response_times s' = [10033 / 100]"
  proof -
    from monitor_services_pass
      [where cf = Missing and tie_up = "\<lambda>x. True" and net = example_net_thirds and now = 1000
         and s = initial_state, THEN conjunct2, rule_format, OF c]
    obtain endpoints s' where g: "get_health_endpoints Missing = Inr endpoints"
      and m: "monitor_services (\<lambda>x. True) Missing example_net_thirds 1000 initial_state = (None, s')"
      and l: "last_check_time s' = 1000"
      and b: "spec_pass_timings (\<lambda>x. True) example_net_thirds endpoints \<noteq> [] \<longrightarrow>
                (\<exists>v k. response_times s' = deque_append (response_times initial_state) v
                   \<and> v = of_int k / 100
                   \<and> \<bar>v - sum_list (spec_pass_timings (\<lambda>x. True) example_net_thirds endpoints)
                            / real (length (spec_pass_timings (\<lambda>x. True) example_net_thirds endpoints))\<bar>
                      \<le> 1 / 200)"
      by (elim exE conjE)
    have E: "endpoints = ?E" using g e by simp
    have "spec_pass_timings (\<lambda>x. True) example_net_thirds endpoints \<noteq> []"
      unfolding E t by simp
    from b [rule_format, OF this] obtain v and k :: int
      where r: "response_times s' = deque_append (response_times initial_state) v"
        and v: "v = of_int k / 100"
        and d0: "\<bar>v - sum_list (spec_pass_timings (\<lambda>x. True) example_net_thirds endpoints)
                    / real (length (spec_pass_timings (\<lambda>x. True) example_net_thirds endpoints))\<bar>
                 \<le> 1 / 200"
      by (elim exE conjE)
    from d0 have d: "\<bar>v - 301 / 3\<bar> \<le> 1 / 200"
      unfolding E t by simp
    from d have "real_of_int k / 100 - 301 / 3 \<le> 1 / 200"
      and "- (1 / 200) \<le> real_of_int k / 100 - 301 / 3"
      unfolding v by linarith+
    then have "real_of_int k < 10034" and "10032 < real_of_int k" by linarith+
    then have "k < 10034" and "10032 < k" by linarith+
    then have "k = 10033" by arith
    with r v have "response_times s' = [10033 / 100]"
      by (simp add: deque_append_def initial_state_def)
    with m l show ?thesis by (intro exI [of _ s'] conjI)
  qed
  have b: "\<exists>s'. monitor_services (\<lambda>x. True) Missing (\<lambda>n u. Raises ConnectionError) 1000 initial_state
             = (None, s')
      \<and> last_check_time s' = 1000 \<and> response_times s' = []"
  proof -
    from monitor_services_pass
      [where cf = Missing and tie_up = "\<lambda>x. True" and net = "\<lambda>n u. Raises ConnectionError"
         and now = 1000 and s = initial_state, THEN conjunct2, rule_format, OF c]
    obtain endpoints s' where g: "get_health_endpoints Missing = Inr endpoints"
      and m: "monitor_services (\<lambda>x. True) Missing (\<lambda>n u. Raises ConnectionError) 1000 initial_state
                = (None, s')"
      and l: "last_check_time s' = 1000"
      and a: "spec_pass_timings (\<lambda>x. True) (\<lambda>n u. Raises ConnectionError) endpoints = [] \<longrightarrow>
                response_times s' = response_times initial_state"
      by (elim exE conjE)
    have E: "endpoints = ?E" using g e by simp
    from a n have "response_times s' = []" unfolding E by (simp add: initial_state_def)
    with m l show ?thesis by (intro exI [of _ s'] conjI)
  qed
  from a b show ?thesis by (rule conjI)
qed

text \<open>
  C8 as stated fails for a pass that finds \<^verbatim>\<open>config.json\<close> malformed: the pass raises in
  \<^verbatim>\<open>get_health_endpoints\<close>, and the time of the last pass stays as it was.
\<close>

theorem monitor_services_malformed_config:
  "monitor_services (\<lambda>x. True) Malformed example_net 1000 initial_state
     = (Some JSONDecodeError, initial_state)
   \<and> last_check_time initial_state \<noteq> 1000"
  by (simp add: monitor_services_def get_health_endpoints_def load_config_def read_config_def
      initial_state_def)

subsection \<open>Response time window\<close>

lemma deque_append_length: "length dq \<le> 100 \<Longrightarrow> length (deque_append dq x) \<le> 100"
  by (simp add: deque_append_def Let_def)

lemma monitor_services_window:
  "length (response_times s) \<le> 100 \<Longrightarrow>
   length (response_times (snd (monitor_services tie_up cf net now s))) \<le> 100"
  by (auto simp: monitor_services_def Let_def deque_append_length split: sum.splits prod.splits option.splits)

lemma monitor_loop_window:
  "length (response_times s) \<le> 100 \<Longrightarrow> length (response_times (monitor_loop tie_up passes s)) \<le> 100"
proof (induction passes arbitrary: s)
  case Nil
  then show ?case by simp
next
  case (Cons p passes)
  obtain cf net now where p: "p = (cf, net, now)" by (cases p)
  show ?case unfolding p monitor_loop.simps
    by (rule Cons.IH) (rule monitor_services_window [OF Cons.prems])
qed

lemma deque_append_drop:
  "deque_append (drop (length xs - 100) xs) x = drop (length (xs @ [x]) - 100) (xs @ [x])"
proof (cases "100 \<le> length xs")
  case True
  then have ne: "drop (length xs - 100) xs \<noteq> []" by simp
  have "tl (drop (length xs - 100) xs @ [x]) = tl (drop (length xs - 100) xs) @ [x]"
    using ne by simp
  also have "\<dots> = drop (Suc (length xs - 100)) xs @ [x]"
    by (simp add: drop_Suc tl_drop)
  finally have t: "tl (drop (length xs - 100) xs @ [x]) = drop (Suc (length xs - 100)) xs @ [x]" .
  have e: "Suc (length xs - 100) = Suc (length xs) - 100" using True by arith
  show ?thesis using True
    by (simp add: deque_append_def Let_def t e)
next
  case False
  then show ?thesis by (simp add: deque_append_def Let_def)
qed

lemma foldl_deque_append:
  "foldl deque_append [] xs = drop (length xs - 100) xs"
proof (induction xs rule: rev_induct)
  case Nil
  show ?case by simp
next
  case (snoc x xs)
  have "foldl deque_append [] (xs @ [x]) = deque_append (foldl deque_append [] xs) x"
    by simp
  also have "\<dots> = deque_append (drop (length xs - 100) xs) x"
    by (simp only: snoc.IH)
  also have "\<dots> = drop (length (xs @ [x]) - 100) (xs @ [x])"
    by (rule deque_append_drop)
  finally show ?case .
qed

text \<open>
  C6. After any sequence of passes from the initial globals the window holds at most 100
  entries; and 150 appends \<open>f 0, \<dots>, f 149\<close> to the empty window leave the last hundred,
  \<open>f 50, \<dots>, f 149\<close>, in their order: the first fifty are gone.
\<close>

theorem response_times_bounded_fifo:
  "length (response_times (monitor_loop tie_up passes initial_state)) \<le> 100
   \<and> foldl deque_append [] (map f [0..<150]) = map f [50..<150]"
proof
  show "length (response_times (monitor_loop tie_up passes initial_state)) \<le> 100"
    by (rule monitor_loop_window) (simp add: initial_state_def)
  have "foldl deque_append [] (map f [0..<150]) = drop 50 (map f [0..<150])"
    by (simp add: foldl_deque_append)
  also have "\<dots> = map f [50..<150]" by (simp add: drop_map drop_upt del: upt_rec_numeral)
  finally show "foldl deque_append [] (map f [0..<150]) = map f [50..<150]" .
qed

subsection \<open>Uptime\<close>

lemma get_health_endpoints_names:
  "get_health_endpoints cf = Inr endpoints \<Longrightarrow>
   set (map fst endpoints) = {''API'', ''Discord Bot'', ''Database'', ''ROBLOX API''}"
  by (auto simp: get_health_endpoints_def split: sum.splits)

lemma monitor_services_keys:
  assumes "distinct (map fst (service_status s))"
    and "set (map fst (service_status s)) \<subseteq> {''API'', ''Discord Bot'', ''Database'', ''ROBLOX API''}"
  shows "distinct (map fst (service_status (snd (monitor_services tie_up cf net now s))))
    \<and> set (map fst (service_status (snd (monitor_services tie_up cf net now s))))
        \<subseteq> {''API'', ''Discord Bot'', ''Database'', ''ROBLOX API''}"
proof (cases "get_health_endpoints cf")
  case (Inl e)
  then show ?thesis using assms by (simp add: monitor_services_def)
next
  case (Inr endpoints)
  obtain x ss' t' c' where pe: "probe_endpoints tie_up net endpoints (service_status s) 0 0 = (x, ss', t', c')"
    by (cases "probe_endpoints tie_up net endpoints (service_status s) 0 0") auto
  from probe_endpoints_keys [OF pe assms(1)]
  have k: "distinct (map fst ss')" "set (map fst ss') \<subseteq> set (map fst (service_status s)) \<union> set (map fst endpoints)"
    by auto
  have ss: "service_status (snd (monitor_services tie_up cf net now s)) = ss'"
    by (cases x) (simp_all add: monitor_services_def Inr pe Let_def)
  show ?thesis
    unfolding ss using k assms(2) get_health_endpoints_names [OF Inr] by auto
qed

lemma monitor_loop_keys:
  "distinct (map fst (service_status s)) \<Longrightarrow>
   set (map fst (service_status s)) \<subseteq> {''API'', ''Discord Bot'', ''Database'', ''ROBLOX API''} \<Longrightarrow>
   distinct (map fst (service_status (monitor_loop tie_up passes s)))
    \<and> set (map fst (service_status (monitor_loop tie_up passes s)))
        \<subseteq> {''API'', ''Discord Bot'', ''Database'', ''ROBLOX API''}"
proof (induction passes arbitrary: s)
  case Nil
  then show ?case by simp
next
  case (Cons p passes)
  obtain cf net now where p: "p = (cf, net, now)" by (cases p)
  from monitor_services_keys [OF Cons.prems, where cf = cf and net = net and now = now
      and tie_up = tie_up]
  show ?case unfolding p monitor_loop.simps
    using Cons.IH by blast
qed

lemma monitor_loop_at_most_four:
  "length (service_status (monitor_loop tie_up passes initial_state)) \<le> 4"
proof -
  let ?ss = "service_status (monitor_loop tie_up passes initial_state)"
  have k: "distinct (map fst ?ss)" "set (map fst ?ss) \<subseteq> {''API'', ''Discord Bot'', ''Database'', ''ROBLOX API''}"
    using monitor_loop_keys [of initial_state tie_up passes] by (simp_all add: initial_state_def)
  have "length ?ss = card (set (map fst ?ss))"
    using distinct_card [OF k(1)] by simp
  also have "\<dots> \<le> card {''API'', ''Discord Bot'', ''Database'', ''ROBLOX API''}"
    by (rule card_mono [OF _ k(2)]) simp
  also have "\<dots> \<le> 4" by (simp add: card_insert_if)
  finally show ?thesis .
qed

lemma filter_length_eq: "length (filter P xs) = length xs \<longleftrightarrow> (\<forall>x\<in>set xs. P x)"
  by (induction xs) (auto simp: le_imp_less_Suc [OF length_filter_le] less_imp_neq)

lemma round2_100: "round2 tie_up 100 = 100"
  by (simp add: round2_def)

lemma round2_less:
  assumes "x * 100 < of_int m - 1 / 2"
  shows "round2 tie_up x < of_int m / 100"
proof -
  define y where "y = x * 100"
  define f where "f = \<lfloor>y\<rfloor>"
  have fy: "of_int f \<le> y" and yf: "y < of_int f + 1" unfolding f_def by linarith+
  have ym: "y < of_int m - 1 / 2" using assms by (simp add: y_def)
  have f_lt: "f < m" using fy ym by linarith
  have up: "1 / 2 \<le> y - of_int f \<Longrightarrow> f + 1 < m"
  proof -
    assume "1 / 2 \<le> y - of_int f"
    with ym have "(of_int f :: real) < of_int m - 1" by linarith
    then show "f + 1 < m" by linarith
  qed
  have "(if y - of_int f < 1 / 2 then f else if 1 / 2 < y - of_int f then f + 1
         else if tie_up x then f + 1 else f) < m"
    using f_lt up by auto
  then have "(of_int (if y - of_int f < 1 / 2 then f else if 1 / 2 < y - of_int f then f + 1
         else if tie_up x then f + 1 else f) :: real) < of_int m"
    by (simp only: of_int_less_iff)
  then show ?thesis
    unfolding round2_def Let_def y_def [symmetric] f_def [symmetric]
    by (simp add: divide_strict_right_mono)
qed

text \<open>
  With fewer than 20000 services a percentage rounds to 100 only if it is 100: the
  nearest lower one, for 19999 of 20000, is 99.995, a tie that can go to 100.
\<close>

lemma percentage_100_iff:
  assumes "0 < n" "k \<le> n" "n < 20000"
  shows "round2 tie_up (real k / real n * 100) = 100 \<longleftrightarrow> k = n"
proof (cases "k = n")
  case True
  with assms(1) show ?thesis by (simp add: round2_100)
next
  case False
  with assms(2) have "k < n" by simp
  then have "real k + 1 \<le> real n" by linarith
  have "real k / real n * 100 * 100 < of_int 10000 - 1 / 2"
  proof -
    have "real k * 10000 \<le> real n * 10000 - 10000" using \<open>real k + 1 \<le> real n\<close> by linarith
    also have "\<dots> < (10000 - 1 / 2) * real n" using assms(3) by (simp add: algebra_simps)
    finally have "real k * 10000 / real n < 10000 - 1 / 2"
      using assms(1) by (simp add: divide_less_eq)
    then show ?thesis by simp
  qed
  from round2_less [OF this] have "round2 tie_up (real k / real n * 100) < 100" by simp
  with False show ?thesis by simp
qed

text \<open>
  C10. The uptime is the fallback 99.98 while \<^verbatim>\<open>service_status\<close> is empty; otherwise it is
  the share of its services whose status is Operational, as a percentage rounded to two
  decimals; and in every state that passes from the initial globals reach, it is 100 only
  when every service is Operational.
\<close>

theorem calculate_uptime_value:
  "(service_status s = [] \<longrightarrow> calculate_uptime tie_up s = 99.98)
   \<and> (service_status s \<noteq> [] \<longrightarrow>
        calculate_uptime tie_up s =
          round2 tie_up (real (length (filter (\<lambda>(name, st). status st = ''operational'') (service_status s)))
                  / real (length (service_status s)) * 100))
   \<and> (s = monitor_loop tie_up passes initial_state \<and> service_status s \<noteq> [] \<longrightarrow>
        (calculate_uptime tie_up s = 100 \<longleftrightarrow>
           (\<forall>(name, st)\<in>set (service_status s). status st = ''operational'')))"
proof (intro conjI impI)
  show "calculate_uptime tie_up s = 99.98" if "service_status s = []"
    using that by (simp add: calculate_uptime_def)
  show u: "calculate_uptime tie_up s =
          round2 tie_up (real (length (filter (\<lambda>(name, st). status st = ''operational'') (service_status s)))
                  / real (length (service_status s)) * 100)" if "service_status s \<noteq> []"
    using that by (simp add: calculate_uptime_def Let_def)
  show "calculate_uptime tie_up s = 100 \<longleftrightarrow>
           (\<forall>(name, st)\<in>set (service_status s). status st = ''operational'')"
    if r: "s = monitor_loop tie_up passes initial_state \<and> service_status s \<noteq> []"
  proof -
    let ?ss = "service_status s"
    let ?P = "\<lambda>(name, st). status st = ''operational''"
    have n: "0 < length ?ss" "length ?ss < 20000"
      using r monitor_loop_at_most_four [of tie_up passes] by auto
    have "calculate_uptime tie_up s = 100 \<longleftrightarrow> length (filter ?P ?ss) = length ?ss"
      unfolding u [OF conjunct2 [OF r]]
      by (rule percentage_100_iff [OF n(1) length_filter_le n(2)])
    then show ?thesis by (simp add: filter_length_eq)
  qed
qed

text \<open>
  The initial globals, a pass with one of four services Operational, and a pass with
  all four.
\<close>

theorem calculate_uptime_witness:
  "calculate_uptime (\<lambda>x. True) initial_state = 99.98
   \<and> calculate_uptime (\<lambda>x. True) (monitor_loop (\<lambda>x. True) [(Missing, example_net, 1000)] initial_state) = 25
   \<and> calculate_uptime (\<lambda>x. True) (monitor_loop (\<lambda>x. True) [(Missing, \<lambda>n u. Response 200 (1 / 10), 1000)] initial_state) = 100"
proof -
  let ?s1 = "monitor_loop (\<lambda>x. True) [(Missing, example_net, 1000)] initial_state"
  let ?s2 = "monitor_loop (\<lambda>x. True) [(Missing, \<lambda>n u. Response 200 (1 / 10), 1000)] initial_state"
  have s1: "service_status ?s1 =
    [(''API'', \<lparr>status = ''operational'', response_time = Some 100\<rparr>),
     (''Discord Bot'', \<lparr>status = ''degraded'', response_time = Some 5000\<rparr>),
     (''Database'', \<lparr>status = ''major'', response_time = None\<rparr>),
     (''ROBLOX API'', \<lparr>status = ''major'', response_time = None\<rparr>)]"
    by (simp add: monitor_services_def get_health_endpoints_def load_config_def read_config_def
        check_service_health_def probe_body_def example_net_def initial_state_def round2_def Let_def)
  have s2: "service_status ?s2 =
    [(''API'', \<lparr>status = ''operational'', response_time = Some 100\<rparr>),
     (''Discord Bot'', \<lparr>status = ''operational'', response_time = Some 100\<rparr>),
     (''Database'', \<lparr>status = ''operational'', response_time = Some 100\<rparr>),
     (''ROBLOX API'', \<lparr>status = ''operational'', response_time = Some 100\<rparr>)]"
    by (simp add: monitor_services_def get_health_endpoints_def load_config_def read_config_def
        check_service_health_def probe_body_def initial_state_def round2_def Let_def)
  have a: "calculate_uptime (\<lambda>x. True) initial_state = 99.98"
    using calculate_uptime_value [where s = initial_state and tie_up = "\<lambda>x. True"] by (simp add: initial_state_def)
  have b: "calculate_uptime (\<lambda>x. True) ?s1 = 25"
    using calculate_uptime_value [where s = ?s1 and tie_up = "\<lambda>x. True"] unfolding s1 by (simp add: round2_def)
  have c: "calculate_uptime (\<lambda>x. True) ?s2 = 100"
    using calculate_uptime_value [where s = ?s2 and tie_up = "\<lambda>x. True"
        and passes = "[(Missing, \<lambda>n u. Response 200 (1 / 10), 1000)]"] unfolding s2 by simp
  from a b c show ?thesis by (intro conjI)
qed

subsection \<open>Incident timeline\<close>

lemma load_config_Document: "load_config (Document c) = Inr c"
  by (simp add: load_config_def read_config_def)

lemma add_incident_other:
  "d' \<noteq> d \<Longrightarrow> add_incident d st sm m d' = m d'"
  by (simp add: add_incident_def Let_def split: option.splits)

lemma add_incident_same:
  "add_incident d st sm m d =
     Some \<lparr>map_status = (case m d of None \<Rightarrow> st | Some dd \<Rightarrow> map_status dd),
           map_incidents = (case m d of None \<Rightarrow> [] | Some dd \<Rightarrow> map_incidents dd) @ [sm]\<rparr>"
  by (simp add: add_incident_def Let_def split: option.splits)

lemma spec_dated_cases:
  "spec_dated clk x \<Longrightarrow> \<exists>d. fromtimestamp clk (get_or (StartedAt x) 0) = Inr d"
  "\<not> spec_dated clk x \<Longrightarrow> \<exists>e. fromtimestamp clk (get_or (StartedAt x) 0) = Inl e"
  by (auto simp: spec_dated_def split: sum.splits)

text \<open>When \<^verbatim>\<open>datetime.fromtimestamp\<close> accepts every start that a loop comes to, the loop
  returns, having added the entries one after the other.\<close>

lemma index_past_dated:
  "list_all (spec_dated clk) (filter (\<lambda>x. truthy (StartedAt x)) xs) \<Longrightarrow>
   index_past clk xs m =
     Inr (fold add_entry
            (List.map_filter (spec_entry clk past_summary)
               (filter (\<lambda>x. truthy (StartedAt x)) xs)) m)"
proof (induction xs arbitrary: m)
  case Nil
  show ?case by (simp add: List.map_filter_simps)
next
  case (Cons x xs)
  show ?case
  proof (cases "truthy (StartedAt x)")
    case False
    with Cons show ?thesis by simp
  next
    case True
    with Cons.prems have "spec_dated clk x"
      and r: "list_all (spec_dated clk) (filter (\<lambda>x. truthy (StartedAt x)) xs)" by simp_all
    then obtain d where d: "fromtimestamp clk (get_or (StartedAt x) 0) = Inr d"
      using spec_dated_cases(1) by blast
    show ?thesis
      using True d Cons.IH [OF r]
      by (simp add: List.map_filter_simps spec_entry_def add_entry_def)
  qed
qed

lemma index_current_dated:
  "list_all (spec_dated clk) (filter (\<lambda>x. \<not> truthy (FixedAt x) \<and> truthy (StartedAt x)) xs) \<Longrightarrow>
   index_current clk xs m =
     Inr (fold add_entry
            (List.map_filter (spec_entry clk current_summary)
               (filter (\<lambda>x. \<not> truthy (FixedAt x) \<and> truthy (StartedAt x)) xs)) m)"
proof (induction xs arbitrary: m)
  case Nil
  show ?case by (simp add: List.map_filter_simps)
next
  case (Cons x xs)
  show ?case
  proof (cases "\<not> truthy (FixedAt x) \<and> truthy (StartedAt x)")
    case False
    with Cons show ?thesis by auto
  next
    case True
    with Cons.prems have "spec_dated clk x"
      and r: "list_all (spec_dated clk)
                (filter (\<lambda>x. \<not> truthy (FixedAt x) \<and> truthy (StartedAt x)) xs)" by simp_all
    then obtain d where d: "fromtimestamp clk (get_or (StartedAt x) 0) = Inr d"
      using spec_dated_cases(1) by blast
    show ?thesis
      using True d Cons.IH [OF r]
      by (simp add: List.map_filter_simps spec_entry_def add_entry_def)
  qed
qed

text \<open>When it rejects one of them, the loop raises.\<close>

lemma index_past_raises:
  "\<not> list_all (spec_dated clk) (filter (\<lambda>x. truthy (StartedAt x)) xs) \<Longrightarrow>
   \<exists>e. index_past clk xs m = Inl e"
proof (induction xs arbitrary: m)
  case Nil
  then show ?case by simp
next
  case (Cons x xs)
  show ?case
  proof (cases "truthy (StartedAt x)")
    case False
    with Cons show ?thesis by simp
  next
    case True
    show ?thesis
    proof (cases "spec_dated clk x")
      case False
      then obtain e where "fromtimestamp clk (get_or (StartedAt x) 0) = Inl e"
        using spec_dated_cases(2) by blast
      with True show ?thesis by simp
    next
      case d: True
      then obtain dd where "fromtimestamp clk (get_or (StartedAt x) 0) = Inr dd"
        using spec_dated_cases(1) by blast
      moreover from Cons.prems True d
      have "\<not> list_all (spec_dated clk) (filter (\<lambda>x. truthy (StartedAt x)) xs)" by simp
      ultimately show ?thesis using True Cons.IH by simp
    qed
  qed
qed

lemma index_current_raises:
  "\<not> list_all (spec_dated clk) (filter (\<lambda>x. \<not> truthy (FixedAt x) \<and> truthy (StartedAt x)) xs) \<Longrightarrow>
   \<exists>e. index_current clk xs m = Inl e"
proof (induction xs arbitrary: m)
  case Nil
  then show ?case by simp
next
  case (Cons x xs)
  show ?case
  proof (cases "\<not> truthy (FixedAt x) \<and> truthy (StartedAt x)")
    case False
    with Cons show ?thesis by auto
  next
    case True
    show ?thesis
    proof (cases "spec_dated clk x")
      case False
      then obtain e where "fromtimestamp clk (get_or (StartedAt x) 0) = Inl e"
        using spec_dated_cases(2) by blast
      with True show ?thesis by simp
    next
      case d: True
      then obtain dd where "fromtimestamp clk (get_or (StartedAt x) 0) = Inr dd"
        using spec_dated_cases(1) by blast
      moreover from Cons.prems True d
      have "\<not> list_all (spec_dated clk)
                (filter (\<lambda>x. \<not> truthy (FixedAt x) \<and> truthy (StartedAt x)) xs)" by simp
      ultimately show ?thesis using True Cons.IH by simp
    qed
  qed
qed

lemma history_entry_ok:
  assumes "min_day \<le> today - int i" and "timestamp_back clk i = Inr ts"
  shows "\<exists>r. history_entry clk m today i = Inr r \<and> spec_day_of m today i r"
  using assms by (simp add: history_entry_def spec_day_of_def Let_def split: option.splits)

lemma history_loop_ok:
  "\<forall>i\<in>set js. min_day \<le> today - int i \<and> (\<exists>ts. timestamp_back clk i = Inr ts) \<Longrightarrow>
   \<exists>rs. history_loop clk m today js history = Inr (history @ rs)
        \<and> list_all2 (spec_day_of m today) js rs"
proof (induction js arbitrary: history)
  case Nil
  show ?case by simp
next
  case (Cons i js)
  then obtain ts where "min_day \<le> today - int i" and "timestamp_back clk i = Inr ts" by auto
  from history_entry_ok [OF this, of m]
  obtain r where r: "history_entry clk m today i = Inr r" and p: "spec_day_of m today i r"
    by (elim exE conjE)
  from Cons.prems have "\<forall>i\<in>set js. min_day \<le> today - int i \<and> (\<exists>ts. timestamp_back clk i = Inr ts)"
    by simp
  from Cons.IH [OF this, of "history @ [r]"]
  obtain rs where l: "history_loop clk m today js (history @ [r]) = Inr ((history @ [r]) @ rs)"
    and a: "list_all2 (spec_day_of m today) js rs"
    by (elim exE conjE)
  show ?case
    by (rule exI [of _ "r # rs"]) (simp add: r l p a)
qed

lemma fold_add_entry_none:
  "filter (\<lambda>e. fst e = d) es = [] \<Longrightarrow> fold add_entry es m d = m d"
proof (induction es arbitrary: m)
  case Nil
  show ?case by simp
next
  case (Cons e es)
  then have "fst e \<noteq> d" and "filter (\<lambda>e. fst e = d) es = []"
    by (auto split: if_splits)
  then show ?case using Cons.IH [of "add_entry e m"]
    by (simp add: add_entry_def add_incident_other)
qed

lemma fold_add_entry_present:
  "m d = Some dd \<Longrightarrow>
   fold add_entry es m d =
     Some \<lparr>map_status = map_status dd,
           map_incidents = map_incidents dd @ map (snd \<circ> snd) (filter (\<lambda>e. fst e = d) es)\<rparr>"
proof (induction es arbitrary: m dd)
  case Nil
  then show ?case by simp
next
  case (Cons e es)
  show ?case
  proof (cases "fst e = d")
    case True
    have "add_entry e m d =
        Some \<lparr>map_status = map_status dd, map_incidents = map_incidents dd @ [snd (snd e)]\<rparr>"
      using Cons.prems True by (simp add: add_entry_def add_incident_same)
    from Cons.IH [where m = "add_entry e m", OF this] show ?thesis using True by simp
  next
    case False
    then have "add_entry e m d = Some dd"
      using Cons.prems by (simp add: add_entry_def add_incident_other)
    from Cons.IH [where m = "add_entry e m", OF this] show ?thesis using False by simp
  qed
qed

lemma fold_add_entry_first:
  assumes "m d = None" and "filter (\<lambda>e. fst e = d) es = e # rest"
  shows "fold add_entry es m d =
     Some \<lparr>map_status = incident_type_of (fst (snd e)),
           map_incidents = map (snd \<circ> snd) (e # rest)\<rparr>"
  using assms
proof (induction es arbitrary: m)
  case Nil
  then show ?case by simp
next
  case (Cons x es)
  show ?case
  proof (cases "fst x = d")
    case True
    with Cons.prems(2) have x: "x = e" and rest: "filter (\<lambda>e. fst e = d) es = rest" by auto
    have "add_entry x m d =
        Some \<lparr>map_status = incident_type_of (fst (snd e)), map_incidents = [snd (snd e)]\<rparr>"
      using Cons.prems(1) True by (simp add: x add_entry_def add_incident_same)
    from fold_add_entry_present [where m = "add_entry x m" and es = es, OF this]
    show ?thesis by (simp add: rest)
  next
    case False
    with Cons.prems have "add_entry x m d = None" and "filter (\<lambda>e. fst e = d) es = e # rest"
      by (simp_all add: add_entry_def add_incident_other)
    from Cons.IH [where m = "add_entry x m", OF this] show ?thesis by simp
  qed
qed

text \<open>
  The timeline of a log that can be dated, on a clock that gives the 90 days: it is
  returned, and read from the newest day back its records are those of the days 0 to 89
  before today, over the index that the entries build.
\<close>

lemma generate_90_day_history_returns:
  assumes c: "load_config cf = Inr cfg"
    and l: "spec_log_dated clk cfg"
    and k: "spec_clock_ok clk today"
  shows "\<exists>rs. generate_90_day_history cf clk = Inr (rev rs)
           \<and> list_all2 (spec_day_of (fold add_entry (spec_indexed_entries clk cfg) Map.empty) today)
                [0..<90] rs"
proof -
  let ?m = "fold add_entry (spec_indexed_entries clk cfg) Map.empty"
  from k have t: "fromtimestamp clk (now_ts clk) = Inr today"
    and lo: "min_day \<le> today - 89"
    and ts: "\<forall>i\<in>set [0..<90]. case timestamp_back clk i of Inl e \<Rightarrow> False | Inr ts \<Rightarrow> True"
    by (simp_all add: spec_clock_ok_def list_all_iff del: upt_rec_numeral)
  have "\<forall>i\<in>set [0..<90]. min_day \<le> today - int i \<and> (\<exists>ts. timestamp_back clk i = Inr ts)"
  proof
    fix i :: nat assume i: "i \<in> set [0..<90]"
    then have "i < 90" by (simp del: upt_rec_numeral)
    with lo have "min_day \<le> today - int i" by linarith
    moreover from ts i
    have "case timestamp_back clk i of Inl e \<Rightarrow> False | Inr ts \<Rightarrow> True" by (rule bspec)
    then have "\<exists>ts. timestamp_back clk i = Inr ts"
      by (cases "timestamp_back clk i") simp_all
    ultimately show "min_day \<le> today - int i \<and> (\<exists>ts. timestamp_back clk i = Inr ts)" ..
  qed
  from history_loop_ok [OF this, of ?m "[]"]
  obtain rs where h: "history_loop clk ?m today [0..<90] [] = Inr rs"
    and a: "list_all2 (spec_day_of ?m today) [0..<90] rs"
    by (auto simp del: upt_rec_numeral)
  from l have p: "list_all (spec_dated clk) (filter (\<lambda>x. truthy (StartedAt x)) (PastIncidents cfg))"
    and q: "list_all (spec_dated clk)
              (filter (\<lambda>x. \<not> truthy (FixedAt x) \<and> truthy (StartedAt x)) (CurrentStatuses cfg))"
    by (simp_all add: spec_log_dated_def spec_past_entries_def spec_current_entries_def)
  have m: "index_current clk (CurrentStatuses cfg)
             (fold add_entry
                (List.map_filter (spec_entry clk past_summary)
                   (filter (\<lambda>x. truthy (StartedAt x)) (PastIncidents cfg))) Map.empty) = Inr ?m"
    by (simp add: index_current_dated [OF q] spec_indexed_entries_def spec_past_entries_def
        spec_current_entries_def)
  have "generate_90_day_history cf clk = Inr (rev rs)"
    by (simp add: generate_90_day_history_def c t index_past_dated [OF p] m h del: upt_rec_numeral)
  with a show ?thesis by (intro exI [of _ rs] conjI)
qed

text \<open>A log that cannot be dated makes the builder raise.\<close>

lemma generate_90_day_history_raises:
  assumes c: "load_config cf = Inr cfg" and l: "\<not> spec_log_dated clk cfg"
  shows "\<exists>e. generate_90_day_history cf clk = Inl e"
proof (cases "fromtimestamp clk (now_ts clk)")
  case (Inl e)
  then show ?thesis by (simp add: generate_90_day_history_def c)
next
  case (Inr today)
  show ?thesis
  proof (cases "list_all (spec_dated clk) (filter (\<lambda>x. truthy (StartedAt x)) (PastIncidents cfg))")
    case False
    from index_past_raises [OF this, of Map.empty]
    obtain e where "index_past clk (PastIncidents cfg) Map.empty = Inl e" ..
    then show ?thesis by (simp add: generate_90_day_history_def c Inr)
  next
    case True
    with l have "\<not> list_all (spec_dated clk)
              (filter (\<lambda>x. \<not> truthy (FixedAt x) \<and> truthy (StartedAt x)) (CurrentStatuses cfg))"
      by (simp add: spec_log_dated_def spec_past_entries_def spec_current_entries_def)
    from index_current_raises [OF this]
    have "\<exists>e. index_current clk (CurrentStatuses cfg) m = Inl e" for m .
    then obtain e where "index_current clk (CurrentStatuses cfg)
             (fold add_entry
                (List.map_filter (spec_entry clk past_summary)
                   (filter (\<lambda>x. truthy (StartedAt x)) (PastIncidents cfg))) Map.empty) = Inl e"
      by blast
    then show ?thesis
      by (simp add: generate_90_day_history_def c Inr index_past_dated [OF True])
  qed
qed

lemma list_all2_rev_nth:
  assumes "list_all2 P [0..<n] rs" and "k < n"
  shows "P (n - 1 - k) (rev rs ! k)"
proof -
  from assms(1) have len: "length rs = n" by (auto dest: list_all2_lengthD)
  have "P ([0..<n] ! (n - 1 - k)) (rs ! (n - 1 - k))"
    by (rule list_all2_nthD [OF assms(1)]) (use assms(2) in simp)
  moreover have "rev rs ! k = rs ! (n - 1 - k)"
    using assms(2) len by (simp add: rev_nth)
  moreover have "[0..<n] ! (n - 1 - k) = n - 1 - k" using assms(2) by simp
  ultimately show ?thesis by simp
qed

lemma generate_90_day_history_days:
  assumes c: "load_config cf = Inr cfg"
    and l: "spec_log_dated clk cfg"
    and k: "spec_clock_ok clk today"
  shows "\<exists>h. generate_90_day_history cf clk = Inr h \<and> length h = 90
           \<and> (\<forall>j<90. spec_day_of (fold add_entry (spec_indexed_entries clk cfg) Map.empty) today
                         (89 - j) (h ! j))"
proof -
  let ?m = "fold add_entry (spec_indexed_entries clk cfg) Map.empty"
  from generate_90_day_history_returns [OF c l k]
  obtain rs where g: "generate_90_day_history cf clk = Inr (rev rs)"
    and a: "list_all2 (spec_day_of ?m today) [0..<90] rs"
    by (elim exE conjE)
  from a have "length rs = 90" by (auto dest: list_all2_lengthD simp del: upt_rec_numeral)
  then have n: "length (rev rs) = 90" by simp
  have "spec_day_of ?m today (89 - j) (rev rs ! j)" if "j < 90" for j
    using list_all2_rev_nth [OF a that] by simp
  with g n show ?thesis by (intro exI [of _ "rev rs"] conjI allI impI)
qed

text \<open>
  C5, as amended. For a configuration that loads: when \<^verbatim>\<open>datetime.fromtimestamp\<close> accepts
  the start of every entry that is indexed, and the clock gives the 90 days that end
  today, the timeline has exactly 90 records; their dates are those 90 consecutive days,
  oldest first, hence without a duplicate; and a day with no indexed entry is Operational
  with an empty incident list. When the call rejects the start of an entry (a time in
  milliseconds, say), the builder raises.
\<close>

theorem generate_90_day_history_shape:
  assumes "load_config cf = Inr cfg"
  shows "(spec_log_dated clk cfg \<and> spec_clock_ok clk today \<longrightarrow>
            (\<exists>h. generate_90_day_history cf clk = Inr h \<and> length h = 90
               \<and> map date h = map (\<lambda>k. today - 89 + int k) [0..<90]
               \<and> distinct (map date h)
               \<and> (\<forall>r\<in>set h.
                     filter (\<lambda>e. fst e = date r) (spec_indexed_entries clk cfg) = [] \<longrightarrow>
                     day_status r = ''operational'' \<and> incidents r = [])))
         \<and> (\<not> spec_log_dated clk cfg \<longrightarrow> (\<exists>e. generate_90_day_history cf clk = Inl e))"
proof (intro conjI impI)
  assume "\<not> spec_log_dated clk cfg"
  then show "\<exists>e. generate_90_day_history cf clk = Inl e"
    by (rule generate_90_day_history_raises [OF assms])
next
  assume "spec_log_dated clk cfg \<and> spec_clock_ok clk today"
  then have l: "spec_log_dated clk cfg" and k: "spec_clock_ok clk today" by simp_all
  let ?m = "fold add_entry (spec_indexed_entries clk cfg) Map.empty"
  from generate_90_day_history_days [OF assms l k]
  obtain h where g: "generate_90_day_history cf clk = Inr h" and n: "length h = 90"
    and s: "\<forall>j<90. spec_day_of ?m today (89 - j) (h ! j)"
    by (elim exE conjE)
  have dj: "date (h ! j) = today - 89 + int j" if "j < 90" for j
  proof -
    from s that have "date (h ! j) = today - int (89 - j)" by (simp add: spec_day_of_def)
    with that show ?thesis by simp
  qed
  have d: "map date h = map (\<lambda>k. today - 89 + int k) [0..<90]"
  proof (rule nth_equalityI)
    show "length (map date h) = length (map (\<lambda>k. today - 89 + int k) [0..<90])"
      by (simp add: n)
    fix j assume "j < length (map date h)"
    then have j: "j < 90" by (simp add: n)
    then show "map date h ! j = map (\<lambda>k. today - 89 + int k) [0..<90] ! j"
      by (simp add: n dj del: upt_rec_numeral)
  qed
  have u: "distinct (map date h)"
    unfolding d by (simp add: distinct_map inj_on_def del: upt_rec_numeral)
  have o: "day_status r = ''operational'' \<and> incidents r = []"
    if r: "r \<in> set h"
      and f: "filter (\<lambda>e. fst e = date r) (spec_indexed_entries clk cfg) = []" for r
  proof -
    from r n obtain j where j: "j < 90" and rj: "r = h ! j"
      by (auto simp: in_set_conv_nth)
    from s j have p: "spec_day_of ?m today (89 - j) r" by (simp add: rj)
    then have dr: "date r = today - int (89 - j)" by (simp add: spec_day_of_def)
    have "?m (date r) = None"
      using fold_add_entry_none [OF f, of Map.empty] by simp
    with p show ?thesis by (simp add: spec_day_of_def dr [symmetric])
  qed
  show "\<exists>h. generate_90_day_history cf clk = Inr h \<and> length h = 90
               \<and> map date h = map (\<lambda>k. today - 89 + int k) [0..<90]
               \<and> distinct (map date h)
               \<and> (\<forall>r\<in>set h.
                     filter (\<lambda>e. fst e = date r) (spec_indexed_entries clk cfg) = [] \<longrightarrow>
                     day_status r = ''operational'' \<and> incidents r = [])"
    by (rule exI [of _ h]) (use g n d u o in blast)
qed

text \<open>
  C2, as amended. When the builder returns (the log can be dated, the clock gives the 90
  days), the status of a date that has indexed entries is that of the first entry
  indexed for the date (past incidents in the order of the log, then the unresolved
  current statuses), by the chain 4: major, 3: partial, 2: degraded, 5: maintenance,
  otherwise investigating; the later entries of the date add their summaries and leave
  the status as it is.
\<close>

theorem day_status_is_first_entry:
  assumes "load_config cf = Inr cfg"
    and "spec_log_dated clk cfg"
    and "spec_clock_ok clk today"
  shows "\<exists>h. generate_90_day_history cf clk = Inr h \<and>
           (\<forall>r\<in>set h. \<forall>e rest.
              filter (\<lambda>x. fst x = date r) (spec_indexed_entries clk cfg) = e # rest \<longrightarrow>
              day_status r = incident_type_of (fst (snd e)) \<and>
              incidents r = map (snd \<circ> snd) (e # rest))"
proof -
  let ?m = "fold add_entry (spec_indexed_entries clk cfg) Map.empty"
  from generate_90_day_history_days [OF assms]
  obtain h where g: "generate_90_day_history cf clk = Inr h" and n: "length h = 90"
    and s: "\<forall>j<90. spec_day_of ?m today (89 - j) (h ! j)"
    by (elim exE conjE)
  have "day_status r = incident_type_of (fst (snd e)) \<and> incidents r = map (snd \<circ> snd) (e # rest)"
    if r: "r \<in> set h"
      and f: "filter (\<lambda>x. fst x = date r) (spec_indexed_entries clk cfg) = e # rest"
    for r e rest
  proof -
    from r n obtain j where j: "j < 90" and rj: "r = h ! j"
      by (auto simp: in_set_conv_nth)
    from s j have p: "spec_day_of ?m today (89 - j) r" by (simp add: rj)
    then have dr: "date r = today - int (89 - j)" by (simp add: spec_day_of_def)
    have "?m (date r) = Some \<lparr>map_status = incident_type_of (fst (snd e)),
             map_incidents = map (snd \<circ> snd) (e # rest)\<rparr>"
      by (rule fold_add_entry_first [OF _ f]) simp
    with p show ?thesis by (simp add: spec_day_of_def dr [symmetric])
  qed
  with g show ?thesis by blast
qed

lemma generate_90_day_history_ends:
  assumes c: "load_config cf = Inr cfg"
    and l: "spec_log_dated clk cfg"
    and k: "spec_clock_ok clk today"
  shows "\<exists>h. generate_90_day_history cf clk = Inr h \<and> h \<noteq> []
           \<and> spec_day_of (fold add_entry (spec_indexed_entries clk cfg) Map.empty) today 89 (hd h)
           \<and> spec_day_of (fold add_entry (spec_indexed_entries clk cfg) Map.empty) today 0 (last h)"
proof -
  let ?m = "fold add_entry (spec_indexed_entries clk cfg) Map.empty"
  from generate_90_day_history_days [OF c l k]
  obtain h where g: "generate_90_day_history cf clk = Inr h" and n: "length h = 90"
    and s: "\<forall>j<90. spec_day_of ?m today (89 - j) (h ! j)"
    by (elim exE conjE)
  from n have ne: "h \<noteq> []" by auto
  have "hd h = h ! 0" using ne by (simp add: hd_conv_nth)
  moreover have "last h = h ! 89" using ne n by (simp add: last_conv_nth)
  moreover from s [rule_format, of 0] have "spec_day_of ?m today 89 (h ! 0)" by simp
  moreover from s [rule_format, of 89] have "spec_day_of ?m today 0 (h ! 89)" by simp
  ultimately have "spec_day_of ?m today 89 (hd h)" and "spec_day_of ?m today 0 (last h)"
    by simp_all
  with g ne show ?thesis by (intro exI [of _ h] conjI)
qed

lemma example_clock_ok: "spec_clock_ok example_clock 19675"
  by (simp add: spec_clock_ok_def example_clock_def utc_fromtimestamp_def min_day_def
      list_all_iff del: upt_rec_numeral)

lemma example_dated:
  "spec_dated example_clock example_major" "spec_dated example_clock example_degraded"
  "\<not> spec_dated example_clock example_milliseconds"
  by (simp_all add: spec_dated_def example_clock_def utc_fromtimestamp_def example_major_def
      example_degraded_def example_milliseconds_def get_or_def)

lemma example_truthy:
  "truthy (StartedAt example_major)" "truthy (StartedAt example_degraded)"
  "truthy (StartedAt example_milliseconds)"
  by (simp_all add: truthy_def example_major_def example_degraded_def example_milliseconds_def)

lemma example_log_dated:
  "spec_log_dated example_clock (example_config [example_major, example_degraded])"
  "spec_log_dated example_clock (example_config [example_degraded, example_major])"
  "\<not> spec_log_dated example_clock (example_config [example_milliseconds])"
  by (simp_all add: spec_log_dated_def spec_past_entries_def spec_current_entries_def
      example_config_def example_dated example_truthy)

lemma example_spec_entry:
  "spec_entry example_clock past_summary example_major =
     Some (19675, [4], past_summary example_major)"
  "spec_entry example_clock past_summary example_degraded =
     Some (19675, [2], past_summary example_degraded)"
  by (simp_all add: spec_entry_def example_clock_def utc_fromtimestamp_def example_major_def
      example_degraded_def get_or_def)

lemma example_entries:
  "spec_indexed_entries example_clock (example_config [example_major, example_degraded]) =
     [(19675, [4], past_summary example_major), (19675, [2], past_summary example_degraded)]"
  "spec_indexed_entries example_clock (example_config [example_degraded, example_major]) =
     [(19675, [2], past_summary example_degraded), (19675, [4], past_summary example_major)]"
  by (simp_all add: spec_indexed_entries_def spec_past_entries_def spec_current_entries_def
      example_config_def example_truthy example_spec_entry List.map_filter_simps)

text \<open>
  A log of two incidents of 14 November 2023 (day 19675): 90 records from day 19586 to
  day 19675, the first of them Operational and empty. A log whose incident starts at
  1699990000000: the builder raises.
\<close>

theorem generate_90_day_history_shape_witness:
  "(\<exists>h. generate_90_day_history (Document (example_config [example_major, example_degraded]))
          example_clock = Inr h
       \<and> length h = 90 \<and> distinct (map date h)
       \<and> date (hd h) = 19586 \<and> date (last h) = 19675
       \<and> day_status (hd h) = ''operational'' \<and> incidents (hd h) = [])
   \<and> (\<exists>e. generate_90_day_history (Document (example_config [example_milliseconds]))
          example_clock = Inl e)"
proof -
  let ?cfg = "example_config [example_major, example_degraded]"
  from generate_90_day_history_shape
      [where cf = "Document ?cfg" and cfg = ?cfg and clk = example_clock and today = 19675,
       OF load_config_Document, THEN conjunct1, rule_format,
      OF conjI [OF example_log_dated(1) example_clock_ok]]
  obtain h where g: "generate_90_day_history (Document ?cfg) example_clock = Inr h"
    and l: "length h = 90"
    and d: "map date h = map (\<lambda>k. 19675 - 89 + int k) [0..<90]"
    and u: "distinct (map date h)"
    and o0: "\<forall>r\<in>set h. filter (\<lambda>e. fst e = date r) (spec_indexed_entries example_clock ?cfg) = []
               \<longrightarrow> day_status r = ''operational'' \<and> incidents r = []"
    by (elim exE conjE)
  have ne: "h \<noteq> []" using l by auto
  have "date (hd h) = hd (map date h)" using ne by (simp add: hd_map)
  also have "\<dots> = 19586" unfolding d by (simp add: hd_map upt_conv_Cons del: upt_rec_numeral)
  finally have dh: "date (hd h) = 19586" .
  have "date (last h) = last (map date h)" using ne by (simp add: last_map)
  also have "\<dots> = 19675" unfolding d
  proof -
    have "[0..<90] = [0..<89] @ [89]"
      by (simp del: upt_rec_numeral add: upt_Suc_append [symmetric])
    then show "last (map (\<lambda>k. 19675 - 89 + int k) [0..<90]) = 19675"
      by (simp del: upt_rec_numeral)
  qed
  finally have dl: "date (last h) = 19675" .
  have "filter (\<lambda>e. fst e = date (hd h)) (spec_indexed_entries example_clock ?cfg) = []"
    unfolding dh example_entries by simp
  with o0 ne have "day_status (hd h) = ''operational''" and "incidents (hd h) = []"
    by simp_all
  with g l u dh dl
  have a: "\<exists>h. generate_90_day_history (Document ?cfg) example_clock = Inr h
       \<and> length h = 90 \<and> distinct (map date h)
       \<and> date (hd h) = 19586 \<and> date (last h) = 19675
       \<and> day_status (hd h) = ''operational'' \<and> incidents (hd h) = []"
    by (intro exI [of _ h] conjI)
  from generate_90_day_history_shape
      [where cf = "Document (example_config [example_milliseconds])"
         and cfg = "example_config [example_milliseconds]" and clk = example_clock
         and today = 19675,
       OF load_config_Document, THEN conjunct2, rule_format, OF example_log_dated(3)]
  have b: "\<exists>e. generate_90_day_history (Document (example_config [example_milliseconds]))
          example_clock = Inl e" .
  from a b show ?thesis by (rule conjI)
qed

text \<open>C5 as stated fails for a log whose incident starts at 1699990000000, a time in
  milliseconds: \<^verbatim>\<open>datetime.fromtimestamp\<close> raises \<^verbatim>\<open>ValueError\<close>, and so does the builder.\<close>

theorem generate_90_day_history_milliseconds:
  "generate_90_day_history (Document (example_config [example_milliseconds])) example_clock
     = Inl ValueError"
  by (simp add: generate_90_day_history_def load_config_def read_config_def example_config_def
      example_clock_def utc_fromtimestamp_def example_milliseconds_def truthy_def get_or_def)

text \<open>
  A degraded incident logged before a major outage of the same day: the day is
  degraded, and lists both.
\<close>

theorem day_status_is_first_entry_witness:
  "\<exists>h. generate_90_day_history (Document (example_config [example_degraded, example_major]))
          example_clock = Inr h
       \<and> day_status (last h) = ''degraded''
       \<and> map inc_title (incidents (last h)) = [''Slow responses'', ''API outage'']"
proof -
  let ?cfg = "example_config [example_degraded, example_major]"
  from day_status_is_first_entry [OF load_config_Document example_log_dated(2) example_clock_ok]
  obtain h where g: "generate_90_day_history (Document ?cfg) example_clock = Inr h"
    and f0: "\<forall>r\<in>set h. \<forall>e rest.
              filter (\<lambda>x. fst x = date r) (spec_indexed_entries example_clock ?cfg) = e # rest \<longrightarrow>
              day_status r = incident_type_of (fst (snd e)) \<and>
              incidents r = map (snd \<circ> snd) (e # rest)"
    by (elim exE conjE)
  from generate_90_day_history_ends [OF load_config_Document example_log_dated(2) example_clock_ok]
  obtain h' where g': "generate_90_day_history (Document ?cfg) example_clock = Inr h'"
    and ne': "h' \<noteq> []"
    and t: "spec_day_of (fold add_entry (spec_indexed_entries example_clock ?cfg) Map.empty)
              19675 0 (last h')"
    by (elim exE conjE)
  from g g' have hh: "h' = h" by simp
  from t have d: "date (last h) = 19675" by (simp add: spec_day_of_def hh)
  from ne' have m: "last h \<in> set h" by (simp add: hh)
  have "filter (\<lambda>x. fst x = date (last h)) (spec_indexed_entries example_clock ?cfg) =
     (19675, [2], past_summary example_degraded) # [(19675, [4], past_summary example_major)]"
    unfolding d example_entries by simp
  from f0 [rule_format, OF m this] have "day_status (last h) = ''degraded''"
    and "map inc_title (incidents (last h)) = [''Slow responses'', ''API outage'']"
    by (simp_all add: incident_type_of_def past_summary_def example_major_def
        example_degraded_def get_or_def)
  with g show ?thesis by (intro exI [of _ h] conjI)
qed

lemma example_today:
  assumes "spec_log_dated example_clock cfg"
    and "spec_indexed_entries example_clock cfg = [(19675, a, sa), (19675, b, sb)]"
  shows "\<exists>h. generate_90_day_history (Document cfg) example_clock = Inr h
           \<and> date (last h) = 19675 \<and> length (incidents (last h)) = 2
           \<and> day_status (last h) = incident_type_of a"
proof -
  from generate_90_day_history_ends [OF load_config_Document assms(1) example_clock_ok]
  obtain h where g: "generate_90_day_history (Document cfg) example_clock = Inr h"
    and t: "spec_day_of (fold add_entry (spec_indexed_entries example_clock cfg) Map.empty)
              19675 0 (last h)"
    by (elim exE conjE)
  have "fold add_entry (spec_indexed_entries example_clock cfg) Map.empty 19675 =
      Some \<lparr>map_status = incident_type_of (fst (snd (19675 :: int, a, sa))),
            map_incidents = map (snd \<circ> snd) ((19675 :: int, a, sa) # [(19675, b, sb)])\<rparr>"
    by (rule fold_add_entry_first) (simp_all add: assms(2))
  with t have "date (last h) = 19675" and "length (incidents (last h)) = 2"
    and "day_status (last h) = incident_type_of a"
    by (simp_all add: spec_day_of_def)
  with g show ?thesis by (intro exI [of _ h] conjI)
qed

text \<open>
  C2 as stated fails: the same two incidents of one day give the day the status major
  in one order of the log and degraded in the other, while the resolver gives one class,
  the degraded one, for their status ids together.
\<close>

theorem day_status_depends_on_order:
  "\<exists>h1 h2.
     generate_90_day_history (Document (example_config [example_major, example_degraded]))
       example_clock = Inr h1
     \<and> generate_90_day_history (Document (example_config [example_degraded, example_major]))
         example_clock = Inr h2
     \<and> date (last h1) = date (last h2)
     \<and> length (incidents (last h1)) = 2 \<and> length (incidents (last h2)) = 2
     \<and> day_status (last h1) = ''major'' \<and> day_status (last h2) = ''degraded''
     \<and> get_status_color (StatusID example_major @ StatusID example_degraded) = ''degraded''
     \<and> get_status_color (StatusID example_degraded @ StatusID example_major) = ''degraded''"
proof -
  from example_today [OF example_log_dated(1) example_entries(1)]
  obtain h1 where g1: "generate_90_day_history
        (Document (example_config [example_major, example_degraded])) example_clock = Inr h1"
    and d1: "date (last h1) = 19675" and n1: "length (incidents (last h1)) = 2"
    and s1: "day_status (last h1) = incident_type_of [4]"
    by (elim exE conjE)
  from example_today [OF example_log_dated(2) example_entries(2)]
  obtain h2 where g2: "generate_90_day_history
        (Document (example_config [example_degraded, example_major])) example_clock = Inr h2"
    and d2: "date (last h2) = 19675" and n2: "length (incidents (last h2)) = 2"
    and s2: "day_status (last h2) = incident_type_of [2]"
    by (elim exE conjE)
  have d: "date (last h1) = date (last h2)" using d1 d2 by simp
  have m1: "day_status (last h1) = ''major''" using s1 by (simp add: incident_type_of_def)
  have m2: "day_status (last h2) = ''degraded''" using s2 by (simp add: incident_type_of_def)
  have r1: "get_status_color (StatusID example_major @ StatusID example_degraded) = ''degraded''"
    by (simp add: get_status_color_def py_min_def dict_get_def priority_map_def
        example_major_def example_degraded_def)
  have r2: "get_status_color (StatusID example_degraded @ StatusID example_major) = ''degraded''"
    by (simp add: get_status_color_def py_min_def dict_get_def priority_map_def
        example_major_def example_degraded_def)
  from g1 g2 d n1 n2 m1 m2 r1 r2 show ?thesis
    by (intro exI [of _ h1] exI [of _ h2] conjI)
qed

end
